theory Spec2Isabelle
  imports Complex_Main "HOL-Library.AList" "HOL-Library.Product_Lexorder"
    "HOL-Library.Char_ord" "HOL-Library.List_Lexorder"
begin

section \<open>Numbers\<close>

text \<open>
  The programs compute with IEEE doubles through numpy and pandas. The model keeps the
  four kinds of value a double can be (a finite number, the two infinities, NaN) and
  their arithmetic, and leaves rounding out: a finite value is a real number, so
  \<open>0.6 * 10 + 0.4 * 20\<close> is exactly \<open>14\<close>. Signed zeros and overflow are not modelled.
\<close>

datatype pyfloat = Fin real | PInf | NInf | NaN

datatype py_error = IndexError | KeyError | ValueError | TypeError | FileNotFoundError

fun isnan :: "pyfloat \<Rightarrow> bool" where
  "isnan NaN = True"
| "isnan _ = False"

fun isfinite :: "pyfloat \<Rightarrow> bool" where
  "isfinite (Fin _) = True"
| "isfinite _ = False"

fun f_sign :: "pyfloat \<Rightarrow> int" where
  "f_sign (Fin x) = (if 0 < x then 1 else if x < 0 then - 1 else 0)"
| "f_sign PInf = 1"
| "f_sign NInf = - 1"
| "f_sign NaN = 0"

definition f_inf :: "int \<Rightarrow> pyfloat" where
  "f_inf s = (if 0 < s then PInf else if s < 0 then NInf else NaN)"

fun f_neg :: "pyfloat \<Rightarrow> pyfloat" where
  "f_neg (Fin x) = Fin (- x)"
| "f_neg PInf = NInf"
| "f_neg NInf = PInf"
| "f_neg NaN = NaN"

fun f_add :: "pyfloat \<Rightarrow> pyfloat \<Rightarrow> pyfloat" where
  "f_add NaN b = NaN"
| "f_add a NaN = NaN"
| "f_add (Fin x) (Fin y) = Fin (x + y)"
| "f_add PInf NInf = NaN"
| "f_add NInf PInf = NaN"
| "f_add PInf b = PInf"
| "f_add a PInf = PInf"
| "f_add NInf b = NInf"
| "f_add a NInf = NInf"

definition f_sub :: "pyfloat \<Rightarrow> pyfloat \<Rightarrow> pyfloat" where
  "f_sub a b = f_add a (f_neg b)"

fun f_mul :: "pyfloat \<Rightarrow> pyfloat \<Rightarrow> pyfloat" where
  "f_mul NaN b = NaN"
| "f_mul a NaN = NaN"
| "f_mul (Fin x) (Fin y) = Fin (x * y)"
| "f_mul a b = f_inf (f_sign a * f_sign b)"

text \<open>numpy division: \<open>x / 0\<close> is an infinity of the sign of \<open>x\<close>, \<open>0 / 0\<close> is NaN.\<close>

fun f_div :: "pyfloat \<Rightarrow> pyfloat \<Rightarrow> pyfloat" where
  "f_div NaN b = NaN"
| "f_div a NaN = NaN"
| "f_div (Fin x) (Fin y) = (if y = 0 then f_inf (f_sign (Fin x)) else Fin (x / y))"
| "f_div (Fin x) b = Fin 0"
| "f_div a (Fin y) = f_inf (f_sign a * (if y < 0 then - 1 else 1))"
| "f_div a b = NaN"

fun f_sqrt :: "pyfloat \<Rightarrow> pyfloat" where
  "f_sqrt (Fin x) = (if x < 0 then NaN else Fin (sqrt x))"
| "f_sqrt PInf = PInf"
| "f_sqrt NInf = NaN"
| "f_sqrt NaN = NaN"

text \<open>\<open>a ** y\<close> for a non-negative integer \<open>y\<close>; \<open>a ** 0\<close> is \<open>1.0\<close> for every \<open>a\<close>.\<close>

fun f_pow :: "pyfloat \<Rightarrow> nat \<Rightarrow> pyfloat" where
  "f_pow a 0 = Fin 1"
| "f_pow a (Suc n) = f_mul a (f_pow a n)"

text \<open>Rounding to the nearest integer, ties to the even one (numpy's \<open>rint\<close>).\<close>

definition rint :: "real \<Rightarrow> int" where
  "rint r = (let f = \<lfloor>r\<rfloor>; d = r - of_int f in
     if d < 1 / 2 then f else if 1 / 2 < d then f + 1 else if even f then f else f + 1)"

text \<open>\<open>x.round(2)\<close>: \<open>rint (x * 100) / 100\<close>; infinities and NaN are unchanged.\<close>

fun round2 :: "pyfloat \<Rightarrow> pyfloat" where
  "round2 (Fin x) = Fin (of_int (rint (x * 100)) / 100)"
| "round2 a = a"

section \<open>numpy and pandas reductions\<close>

text \<open>pandas \<open>sum()\<close> skips NaN; the sum of nothing is \<open>0.0\<close>.\<close>

definition nansum :: "pyfloat list \<Rightarrow> pyfloat" where
  "nansum xs = foldl f_add (Fin 0) (filter (\<lambda>x. \<not> isnan x) xs)"

definition count_valid :: "pyfloat list \<Rightarrow> nat" where
  "count_valid xs = length (filter (\<lambda>x. \<not> isnan x) xs)"

text \<open>pandas \<open>mean()\<close>: the sum over the count of the values that are not NaN (NaN for none).\<close>

definition nanmean :: "pyfloat list \<Rightarrow> pyfloat" where
  "nanmean xs = f_div (nansum xs) (Fin (real (count_valid xs)))"

text \<open>
  pandas \<open>std()\<close> (\<open>ddof = 1\<close>, NaN skipped): NaN for fewer than two values, otherwise the
  square root of the sum of squared deviations from the mean over \<open>count - 1\<close>.
\<close>

definition nanstd :: "pyfloat list \<Rightarrow> pyfloat" where
  "nanstd xs = (let vs = filter (\<lambda>x. \<not> isnan x) xs; n = length vs in
     if n \<le> 1 then NaN
     else let avg = f_div (foldl f_add (Fin 0) vs) (Fin (real n));
              sqr = map (\<lambda>v. f_mul (f_sub avg v) (f_sub avg v)) vs
          in f_sqrt (f_div (foldl f_add (Fin 0) sqr) (Fin (real n - 1))))"

text \<open>numpy sorts NaN last, after \<open>+inf\<close>.\<close>

fun f_key :: "pyfloat \<Rightarrow> nat \<times> real" where
  "f_key NInf = (0, 0)"
| "f_key (Fin x) = (1, x)"
| "f_key PInf = (2, 0)"
| "f_key NaN = (3, 0)"

definition np_sort :: "pyfloat list \<Rightarrow> pyfloat list" where
  "np_sort xs = sort_key f_key xs"

text \<open>numpy's linear interpolation between two neighbours.\<close>

definition lerp :: "pyfloat \<Rightarrow> pyfloat \<Rightarrow> real \<Rightarrow> pyfloat" where
  "lerp a b t = (let diff_b_a = f_sub b a in
     if 1 / 2 \<le> t then f_sub b (f_mul diff_b_a (Fin (1 - t)))
     else f_add a (f_mul diff_b_a (Fin t)))"

text \<open>
  \<open>np.percentile(a, q)\<close>, method \<open>linear\<close>. \<open>q\<close> outside \<open>[0, 100]\<close> raises ValueError. The
  array is sorted; the virtual index is \<open>(n - 1) * q / 100\<close>, its floor and the next position
  are interpolated. An array holding a NaN gives NaN. numpy reads the last element of the
  sorted array to look for NaN, which raises IndexError on an empty array.
\<close>

definition percentile :: "pyfloat list \<Rightarrow> real \<Rightarrow> py_error + pyfloat" where
  "percentile a q =
     (if q < 0 \<or> 100 < q then Inl ValueError
      else if a = [] then Inl IndexError
      else let arr = np_sort a;
               n = length arr;
               virtual_index = real (n - 1) * (q / 100);
               above = (real (n - 1) \<le> virtual_index);
               previous_index = (if above then n - 1 else nat \<lfloor>virtual_index\<rfloor>);
               next_index = (if above then n - 1 else previous_index + 1);
               gamma = (if above then virtual_index + 1 else virtual_index - real previous_index)
           in if isnan (last arr) then Inr NaN
              else Inr (lerp (arr ! previous_index) (arr ! next_index) gamma))"

text \<open>\<open>np.median\<close>: the mean of the middle element(s) of the sorted array; NaN if one is NaN.\<close>

definition median :: "pyfloat list \<Rightarrow> pyfloat" where
  "median a = (let arr = np_sort a; n = length arr in
     if n = 0 then NaN
     else if isnan (last arr) then NaN
     else if even n then f_div (f_add (arr ! (n div 2 - 1)) (arr ! (n div 2))) (Fin 2)
     else arr ! (n div 2))"

section \<open>Series and frames\<close>

text \<open>
  A price history (the \<open>Close\<close> column yfinance returns) is a pandas Series indexed by date;
  dates are day numbers, ascending and without repetition as the market-data collaborator
  gives them. A Series indexed by ticker (weights, volatilities, a portfolio's values) is a
  list of labelled values. A DataFrame holds its row index and its labelled columns, each
  column as long as the index.
\<close>

type_synonym ticker = string
type_synonym date = nat
type_synonym series = "(date \<times> pyfloat) list"
type_synonym labelled = "(ticker \<times> pyfloat) list"

record frame =
  frame_index :: "date list"
  frame_columns :: "(ticker \<times> pyfloat list) list"

text \<open>
  \<open>pd.DataFrame(price_hist)\<close> for a dict of Series: one column per key in insertion order,
  over the sorted union of the dates; a date a history does not have is NaN in its column.
\<close>

definition DataFrame :: "(ticker \<times> series) list \<Rightarrow> frame" where
  "DataFrame d =
     (let idx = sort (remdups (concat (map (\<lambda>(t, s). map fst s) d)))
      in \<lparr>frame_index = idx,
          frame_columns =
            map (\<lambda>(t, s). (t, map (\<lambda>dt. case map_of s dt of Some v \<Rightarrow> v | None \<Rightarrow> NaN) idx)) d\<rparr>)"

text \<open>\<open>df.dropna(axis=1, how='all')\<close>: a column stays when it holds a value that is not NaN.\<close>

definition dropna_columns_all :: "frame \<Rightarrow> frame" where
  "dropna_columns_all f =
     f\<lparr>frame_columns := filter (\<lambda>(t, c). list_ex (\<lambda>v. \<not> isnan v) c) (frame_columns f)\<rparr>"

text \<open>\<open>df.empty\<close>: one of the two axes has length 0.\<close>

definition frame_empty :: "frame \<Rightarrow> bool" where
  "frame_empty f = (frame_index f = [] \<or> frame_columns f = [])"

text \<open>
  \<open>df.pct_change()\<close> (pandas 2: \<open>fill_method='pad'\<close>): each column is forward filled, then
  divided by itself shifted one row down, minus 1. The first row has no predecessor: NaN.
\<close>

fun ffill_from :: "pyfloat \<Rightarrow> pyfloat list \<Rightarrow> pyfloat list" where
  "ffill_from prev [] = []"
| "ffill_from prev (x # xs) = (if isnan x then prev # ffill_from prev xs else x # ffill_from x xs)"

definition shift1 :: "pyfloat list \<Rightarrow> pyfloat list" where
  "shift1 c = (if c = [] then [] else NaN # butlast c)"

definition pct_change_column :: "pyfloat list \<Rightarrow> pyfloat list" where
  "pct_change_column c =
     (let data = ffill_from NaN c
      in map2 (\<lambda>x s. f_sub (f_div x s) (Fin 1)) data (shift1 data))"

definition pct_change :: "frame \<Rightarrow> frame" where
  "pct_change f = f\<lparr>frame_columns := map (\<lambda>(t, c). (t, pct_change_column c)) (frame_columns f)\<rparr>"

text \<open>\<open>df.dropna()\<close>: a row stays when none of its cells is NaN. The columns stay.\<close>

definition row_valid :: "(ticker \<times> pyfloat list) list \<Rightarrow> nat \<Rightarrow> bool" where
  "row_valid cs k = list_all (\<lambda>(t, c). \<not> isnan (c ! k)) cs"

definition keep_rows :: "bool list \<Rightarrow> 'a list \<Rightarrow> 'a list" where
  "keep_rows keep xs = map snd (filter fst (zip keep xs))"

definition dropna_rows :: "frame \<Rightarrow> frame" where
  "dropna_rows f =
     (let keep = map (row_valid (frame_columns f)) [0..<length (frame_index f)]
      in \<lparr>frame_index = keep_rows keep (frame_index f),
          frame_columns = map (\<lambda>(t, c). (t, keep_rows keep c)) (frame_columns f)\<rparr>)"

text \<open>\<open>df[labels]\<close>: the columns of these labels, in their order; KeyError for a label the
  frame does not have.\<close>

fun select_columns :: "(ticker \<times> pyfloat list) list \<Rightarrow> ticker list \<Rightarrow>
    py_error + (ticker \<times> pyfloat list) list" where
  "select_columns cs [] = Inr []"
| "select_columns cs (t # ts) =
     (case map_of cs t of
        None \<Rightarrow> Inl KeyError
      | Some c \<Rightarrow>
          (case select_columns cs ts of
             Inl e \<Rightarrow> Inl e
           | Inr r \<Rightarrow> Inr ((t, c) # r)))"

text \<open>
  \<open>df.dot(w)\<close> for a frame whose columns are the labels of \<open>w\<close> in the same order (as
  \<open>returns[weights.index]\<close> is): per row, the sum of cell times weight. NaN is not skipped.
\<close>

definition dot :: "(ticker \<times> pyfloat list) list \<Rightarrow> pyfloat list \<Rightarrow> nat \<Rightarrow> pyfloat list" where
  "dot cs w n = map (\<lambda>k. foldl f_add (Fin 0) (map2 (\<lambda>(t, c) wi. f_mul (c ! k) wi) cs w)) [0..<n]"

text \<open>
  \<open>a * b\<close> for two Series indexed by ticker. With the same index the product is position
  by position; otherwise the result is indexed by the sorted union of the labels and is NaN
  where one side has no such label.
\<close>

definition series_mul :: "labelled \<Rightarrow> labelled \<Rightarrow> labelled" where
  "series_mul a b =
     (if map fst a = map fst b then map2 (\<lambda>(t, x) (u, y). (t, f_mul x y)) a b
      else map (\<lambda>t. (t, (case (map_of a t, map_of b t) of
                            (Some x, Some y) \<Rightarrow> f_mul x y
                          | _ \<Rightarrow> NaN)))
             (sort (remdups (map fst a @ map fst b))))"

text \<open>\<open>s.cumsum()\<close>: the running sum; a NaN stays NaN and is left out of the sum.\<close>

fun cumsum_from :: "pyfloat \<Rightarrow> pyfloat list \<Rightarrow> pyfloat list" where
  "cumsum_from acc [] = []"
| "cumsum_from acc (x # xs) =
     (if isnan x then NaN # cumsum_from acc xs
      else f_add acc x # cumsum_from (f_add acc x) xs)"

text \<open>\<open>sort_values(by, ascending=False)\<close>: largest first, NaN last.\<close>

fun desc_key :: "pyfloat \<Rightarrow> nat \<times> real" where
  "desc_key PInf = (0, 0)"
| "desc_key (Fin x) = (1, - x)"
| "desc_key NInf = (2, 0)"
| "desc_key NaN = (3, 0)"

text \<open>
  \<open>df.corr()\<close> (Pearson, \<open>min_periods = 1\<close>) for one pair of columns: over the rows where
  both cells are finite, the sum of products of deviations over the square root of the
  product of the sums of squared deviations; NaN when that divisor is 0 or no row is left.
  pandas fills the lower triangle and mirrors it.
\<close>

fun finite_pairs :: "pyfloat list \<Rightarrow> pyfloat list \<Rightarrow> (real \<times> real) list" where
  "finite_pairs (Fin x # xs) (Fin y # ys) = (x, y) # finite_pairs xs ys"
| "finite_pairs (x # xs) (y # ys) = finite_pairs xs ys"
| "finite_pairs _ _ = []"

definition corr_pair :: "pyfloat list \<Rightarrow> pyfloat list \<Rightarrow> pyfloat" where
  "corr_pair xs ys =
     (let ps = finite_pairs xs ys; nobs = length ps in
      if nobs < 1 then NaN
      else let meanx = sum_list (map fst ps) / real nobs;
               meany = sum_list (map snd ps) / real nobs;
               ssqdm_x = sum_list (map (\<lambda>(x, y). (x - meanx) * (x - meanx)) ps);
               ssqdm_y = sum_list (map (\<lambda>(x, y). (y - meany) * (y - meany)) ps);
               covxy = sum_list (map (\<lambda>(x, y). (x - meanx) * (y - meany)) ps);
               divisor = sqrt (ssqdm_x * ssqdm_y)
           in if divisor \<noteq> 0 then Fin (covxy / divisor) else NaN)"

definition corr :: "(ticker \<times> pyfloat list) list \<Rightarrow> (ticker \<times> pyfloat list) list" where
  "corr cs =
     map (\<lambda>i. (fst (cs ! i),
                map (\<lambda>j. corr_pair (snd (cs ! max i j)) (snd (cs ! min i j))) [0..<length cs]))
       [0..<length cs]"

definition round2_matrix :: "(ticker \<times> pyfloat list) list \<Rightarrow> (ticker \<times> pyfloat list) list" where
  "round2_matrix m = map (\<lambda>(t, r). (t, map round2 r)) m"

section \<open>risk\_portefeuille.py\<close>

text \<open>
  The market-data collaborator \<open>yf.Ticker(ticker).history(period=period)['Close']\<close>: the
  \<open>k\<close>-th call either raises an exception (with its message) or returns a Series.
\<close>

datatype fetch_outcome = Raises string | Returns series

type_synonym market = "nat \<Rightarrow> ticker \<Rightarrow> string \<Rightarrow> fetch_outcome"

text \<open>A fetch that gives no data: it raised, or the history is empty.\<close>

definition fetch_fails :: "fetch_outcome \<Rightarrow> bool" where
  "fetch_fails r = (case r of Raises e \<Rightarrow> True | Returns hist \<Rightarrow> hist = [])"

text \<open>A history that is not empty and holds NaN at every date.\<close>

definition only_nan :: "series \<Rightarrow> bool" where
  "only_nan hist = (hist \<noteq> [] \<and> list_all (\<lambda>d. map_of hist d = Some NaN) (map fst hist))"

definition LOOKBACK_DAYS :: string where
  "LOOKBACK_DAYS = ''252''"

definition YEARS :: "nat list" where
  "YEARS = [1, 5, 10, 20, 30]"

definition SIMULATIONS :: nat where
  "SIMULATIONS = 1000"

text \<open>
  The loop of \<open>get_price_history\<close> over the tickers. The state is the dict \<open>price_hist\<close>
  (in insertion order), the list \<open>missing\<close> and the lines printed.
\<close>

fun get_price_history_loop :: "market \<Rightarrow> string \<Rightarrow> nat \<Rightarrow> ticker list \<Rightarrow>
    (ticker \<times> series) list \<times> ticker list \<times> string list \<Rightarrow>
    (ticker \<times> series) list \<times> ticker list \<times> string list" where
  "get_price_history_loop fetch period k [] st = st"
| "get_price_history_loop fetch period k (ticker # rest) (price_hist, missing, out) =
     get_price_history_loop fetch period (Suc k) rest
       (case fetch k ticker period of
          Returns hist \<Rightarrow>
            if hist \<noteq> [] then (AList.update ticker hist price_hist, missing, out)
            else (price_hist, missing @ [ticker], out)
        | Raises e \<Rightarrow>
            (price_hist, missing @ [ticker], out @ [''Erreur pour '' @ ticker @ '': '' @ e]))"

definition get_price_history :: "market \<Rightarrow> ticker list \<Rightarrow> string \<Rightarrow>
    frame \<times> ticker list \<times> string list" where
  "get_price_history fetch tickers period =
     (case get_price_history_loop fetch period 0 tickers ([], [], []) of
        (price_hist, missing, out) \<Rightarrow>
          (dropna_columns_all (DataFrame price_hist), missing, out))"

definition calc_volatility :: "(ticker \<times> pyfloat list) list \<Rightarrow> labelled" where
  "calc_volatility returns = map (\<lambda>(t, c). (t, f_mul (nanstd c) (f_sqrt (Fin 252)))) returns"

definition calc_var :: "pyfloat list \<Rightarrow> real \<Rightarrow> py_error + pyfloat" where
  "calc_var series confidence =
     (case percentile series ((1 - confidence) * 100) of
        Inl e \<Rightarrow> Inl e
      | Inr p \<Rightarrow> Inr (f_neg p))"

definition compute_portfolio_var :: "frame \<Rightarrow> labelled \<Rightarrow> real \<Rightarrow> py_error + pyfloat" where
  "compute_portfolio_var returns weights confidence =
     (case select_columns (frame_columns returns) (map fst weights) of
        Inl e \<Rightarrow> Inl e
      | Inr cs \<Rightarrow>
          (let portf_returns = dot cs (map snd weights) (length (frame_index returns))
           in calc_var portf_returns confidence))"

subsection \<open>Projections\<close>

text \<open>
  The random source: \<open>z k\<close> is the \<open>k\<close>-th standard normal draw of the run.
  \<open>np.random.normal(loc, scale)\<close> is \<open>loc + scale * z\<close> and raises ValueError for a negative
  scale.
\<close>

type_synonym rng = "nat \<Rightarrow> real"

definition normal :: "rng \<Rightarrow> nat \<Rightarrow> pyfloat \<Rightarrow> pyfloat \<Rightarrow> py_error + pyfloat" where
  "normal z k loc scale =
     (if f_sign scale < 0 then Inl ValueError
      else Inr (f_add loc (f_mul scale (Fin (z k)))))"

record projections =
  shown_valeur_actuelle :: pyfloat
  shown_rendement_annuel :: pyfloat
  shown_volatilite_annuelle :: pyfloat
  proj_moy :: "(nat \<times> pyfloat) list"
  proj_stoch :: "(nat \<times> pyfloat \<times> pyfloat \<times> pyfloat) list"

text \<open>The innermost loop: \<open>for _ in range(y): val *= 1 + np.random.normal(...)\<close>.\<close>

fun simulate_years :: "rng \<Rightarrow> pyfloat \<Rightarrow> pyfloat \<Rightarrow> nat \<Rightarrow> nat \<Rightarrow> pyfloat \<Rightarrow>
    py_error + pyfloat \<times> nat" where
  "simulate_years z rendement_annuel volatilite_annuelle 0 k val = Inr (val, k)"
| "simulate_years z rendement_annuel volatilite_annuelle (Suc y) k val =
     (case normal z k (f_div rendement_annuel (Fin 100)) (f_div volatilite_annuelle (Fin 100)) of
        Inl e \<Rightarrow> Inl e
      | Inr d \<Rightarrow>
          simulate_years z rendement_annuel volatilite_annuelle y (Suc k)
            (f_mul val (f_add (Fin 1) d)))"

text \<open>\<open>for _ in range(SIMULATIONS)\<close>: each run starts from the current value.\<close>

fun simulate_runs :: "rng \<Rightarrow> pyfloat \<Rightarrow> pyfloat \<Rightarrow> pyfloat \<Rightarrow> nat \<Rightarrow> nat \<Rightarrow> nat \<Rightarrow>
    pyfloat list \<Rightarrow> py_error + pyfloat list \<times> nat" where
  "simulate_runs z valeur_actuelle rendement_annuel volatilite_annuelle y 0 k sim_values =
     Inr (sim_values, k)"
| "simulate_runs z valeur_actuelle rendement_annuel volatilite_annuelle y (Suc n) k sim_values =
     (case simulate_years z rendement_annuel volatilite_annuelle y k valeur_actuelle of
        Inl e \<Rightarrow> Inl e
      | Inr (val, k') \<Rightarrow>
          simulate_runs z valeur_actuelle rendement_annuel volatilite_annuelle y n k'
            (sim_values @ [val]))"

text \<open>\<open>for y in YEARS\<close>: the median and the 5th and 95th percentiles of the runs.\<close>

fun simulate_horizons :: "rng \<Rightarrow> pyfloat \<Rightarrow> pyfloat \<Rightarrow> pyfloat \<Rightarrow> nat list \<Rightarrow> nat \<Rightarrow>
    (nat \<times> pyfloat \<times> pyfloat \<times> pyfloat) list \<Rightarrow>
    py_error + (nat \<times> pyfloat \<times> pyfloat \<times> pyfloat) list" where
  "simulate_horizons z valeur_actuelle rendement_annuel volatilite_annuelle [] k acc = Inr acc"
| "simulate_horizons z valeur_actuelle rendement_annuel volatilite_annuelle (y # ys) k acc =
     (case simulate_runs z valeur_actuelle rendement_annuel volatilite_annuelle y SIMULATIONS k [] of
        Inl e \<Rightarrow> Inl e
      | Inr (sim_values, k') \<Rightarrow>
          (case percentile sim_values 5 of
             Inl e \<Rightarrow> Inl e
           | Inr p5 \<Rightarrow>
               (case percentile sim_values 95 of
                  Inl e \<Rightarrow> Inl e
                | Inr p95 \<Rightarrow>
                    simulate_horizons z valeur_actuelle rendement_annuel volatilite_annuelle ys k'
                      (acc @ [(y, median sim_values, p5, p95)]))))"

definition show_projections :: "rng \<Rightarrow> pyfloat \<Rightarrow> pyfloat \<Rightarrow> pyfloat \<Rightarrow> py_error + projections" where
  "show_projections z valeur_actuelle rendement_annuel volatilite_annuelle =
     (let moy = map (\<lambda>y. (y, f_mul valeur_actuelle
                               (f_pow (f_add (Fin 1) (f_div rendement_annuel (Fin 100))) y)))
                  YEARS
      in case simulate_horizons z valeur_actuelle rendement_annuel volatilite_annuelle YEARS 0 [] of
           Inl e \<Rightarrow> Inl e
         | Inr stoch \<Rightarrow>
             Inr \<lparr>shown_valeur_actuelle = valeur_actuelle,
                  shown_rendement_annuel = rendement_annuel,
                  shown_volatilite_annuelle = volatilite_annuelle,
                  proj_moy = moy,
                  proj_stoch = stoch\<rparr>)"

subsection \<open>The risk dashboard\<close>

text \<open>
  What the dashboard hands to Streamlit, as data: the warnings, and (when it gets that far)
  the numbers behind each tab before they are formatted as text. \<open>returned\<close> is the tuple
  the function returns. The tables of the second, third and fourth tab are rendered from a
  pandas Styler with \<open>highlight_max\<close> or \<open>background_gradient\<close>; rendering such a Styler
  raises KeyError when the index of the table is not unique. The index is the tickers of
  \<open>df_valid\<close>, so a ticker held on two rows stops the dashboard at \<open>st.table\<close> in the second
  tab, after the metrics of the first tab and before the projection.
\<close>

record risk_view =
  metric_volatilite_moyenne :: pyfloat
  metric_var_95 :: pyfloat
  metric_var_99 :: pyfloat
  metric_nb_actifs :: nat
  metric_volatilite_ponderee :: pyfloat
  df_summary :: "(ticker \<times> pyfloat \<times> pyfloat \<times> pyfloat \<times> pyfloat) list"
  corr_matrix :: "(ticker \<times> pyfloat list) list"
  df_vol :: "(ticker \<times> pyfloat \<times> pyfloat) list"
  projection :: projections

record dashboard =
  warnings :: "string list"
  printed :: "string list"
  view :: "risk_view option"
  returned :: "labelled option \<times> pyfloat option \<times> pyfloat option"

fun join :: "string \<Rightarrow> string list \<Rightarrow> string" where
  "join sep [] = []"
| "join sep [x] = x"
| "join sep (x # y # ys) = x @ sep @ join sep (y # ys)"

text \<open>\<open>df_portfolio[df_portfolio['Ticker'].isin(returns.columns)].set_index('Ticker')\<close>\<close>

definition valid_rows :: "labelled \<Rightarrow> frame \<Rightarrow> labelled" where
  "valid_rows df_portfolio returns =
     filter (\<lambda>(t, v). t \<in> set (map fst (frame_columns returns))) df_portfolio"

text \<open>\<open>df_valid['Valeur totale'] / df_valid['Valeur totale'].sum()\<close>\<close>

definition portfolio_weights :: "labelled \<Rightarrow> labelled" where
  "portfolio_weights df_valid =
     (let total = nansum (map snd df_valid) in map (\<lambda>(t, v). (t, f_div v total)) df_valid)"

text \<open>
  The data model's values: a position's value is its quantity (positive) times the current
  price (positive), or NaN when no current price could be fetched.
\<close>

definition has_value :: "pyfloat \<Rightarrow> bool" where
  "has_value v = (case v of Fin x \<Rightarrow> 0 < x | _ \<Rightarrow> False)"

definition value_ok :: "pyfloat \<Rightarrow> bool" where
  "value_ok v = (isnan v \<or> has_value v)"

text \<open>\<open>(weights * vol_annual).sum()\<close>\<close>

definition volatilite_ponderee :: "labelled \<Rightarrow> labelled \<Rightarrow> pyfloat" where
  "volatilite_ponderee weights vol_annual = nansum (map snd (series_mul weights vol_annual))"

definition percent_round2 :: "labelled \<Rightarrow> labelled" where
  "percent_round2 s = map (\<lambda>(t, x). (t, round2 (f_mul x (Fin 100)))) s"

definition show_risk_dashboard :: "market \<Rightarrow> rng \<Rightarrow> labelled \<Rightarrow> py_error + dashboard" where
  "show_risk_dashboard fetch z df_portfolio =
     (case get_price_history fetch (map fst df_portfolio) (LOOKBACK_DAYS @ ''d'') of
        (price_df, missing_tickers, out) \<Rightarrow>
     let warned = (if missing_tickers \<noteq> []
                   then [''Aucun historique pour : '' @ join '', '' missing_tickers] else [])
     in
     if frame_empty price_df then
       Inr \<lparr>warnings = warned @ [''Aucun historique de prix disponible pour les tickers valides.''],
            printed = out, view = None, returned = (None, None, None)\<rparr>
     else
       let returns = dropna_rows (pct_change price_df);
           df_valid = valid_rows df_portfolio returns;
           weights = portfolio_weights df_valid
       in
       case select_columns (frame_columns returns) (map fst weights) of
         Inl e \<Rightarrow> Inl e
       | Inr selected \<Rightarrow>
       let vol_annual = calc_volatility selected in
       case compute_portfolio_var returns weights (95 / 100) of
         Inl e \<Rightarrow> Inl e
       | Inr var_95 \<Rightarrow>
       case compute_portfolio_var returns weights (99 / 100) of
         Inl e \<Rightarrow> Inl e
       | Inr var_99 \<Rightarrow>
       let vol_pond = volatilite_ponderee weights vol_annual;
           poids = percent_round2 weights;
           volat = percent_round2 vol_annual;
           cumul = map round2 (cumsum_from (Fin 0) (map snd poids));
           summary = map (\<lambda>((t, v), p, s, c). (t, v, p, s, c))
                       (zip df_valid (zip (map snd poids) (zip (map snd volat) cumul)));
           vols = map (\<lambda>((t, s), p). (t, s, p)) (zip volat (map snd poids))
       in
       if \<not> distinct (map fst df_valid) then Inl KeyError
       else
       case show_projections z (nansum (map snd df_valid)) (Fin 0)
              (f_mul (nanmean (map snd vol_annual)) (Fin 100)) of
         Inl e \<Rightarrow> Inl e
       | Inr proj \<Rightarrow>
           Inr \<lparr>warnings = warned, printed = out,
                view = Some
                  \<lparr>metric_volatilite_moyenne = f_mul (nanmean (map snd vol_annual)) (Fin 100),
                   metric_var_95 = f_mul var_95 (Fin 100),
                   metric_var_99 = f_mul var_99 (Fin 100),
                   metric_nb_actifs = length df_valid,
                   metric_volatilite_ponderee = f_mul vol_pond (Fin 100),
                   df_summary = sort_key (\<lambda>(t, v, p, s, c). desc_key p) summary,
                   corr_matrix = round2_matrix (corr selected),
                   df_vol = sort_key (\<lambda>(t, s, p). desc_key s) vols,
                   projection = proj\<rparr>,
                returned = (Some vol_annual, Some var_95, Some var_99)\<rparr>)"

section \<open>app\_portefeuille.py\<close>

subsection \<open>Strings\<close>

text \<open>
  A character is a code point below 256. \<open>str.isspace()\<close> holds of the space, of the
  controls \<open>0x09\<close> to \<open>0x0D\<close> and \<open>0x1C\<close> to \<open>0x1F\<close>, of \<open>0x85\<close> and of \<open>0xA0\<close>;
  \<open>str.strip()\<close> drops these characters at both ends.
\<close>

definition is_space :: "char \<Rightarrow> bool" where
  "is_space c = (let n = (of_char c :: nat) in
     n = 32 \<or> (9 \<le> n \<and> n \<le> 13) \<or> (28 \<le> n \<and> n \<le> 31) \<or> n = 133 \<or> n = 160)"

definition strip :: "string \<Rightarrow> string" where
  "strip s = rev (dropWhile is_space (rev (dropWhile is_space s)))"

text \<open>
  \<open>float()\<close> replaces each whitespace character above \<open>0x7F\<close> by a space and then skips, at
  both ends, the C whitespace only: the space and \<open>0x09\<close> to \<open>0x0D\<close>. The controls \<open>0x1C\<close>
  to \<open>0x1F\<close> are not skipped.
\<close>

definition is_float_space :: "char \<Rightarrow> bool" where
  "is_float_space c = (let n = (of_char c :: nat) in
     n = 32 \<or> (9 \<le> n \<and> n \<le> 13) \<or> n = 133 \<or> n = 160)"

definition float_strip :: "string \<Rightarrow> string" where
  "float_strip s = rev (dropWhile is_float_space (rev (dropWhile is_float_space s)))"

text \<open>\<open>s.split(sep)\<close> for a one-character separator: always at least one part.\<close>

fun split :: "char \<Rightarrow> string \<Rightarrow> string list" where
  "split sep [] = [[]]"
| "split sep (c # cs) =
     (if c = sep then [] # split sep cs
      else (case split sep cs of
              [] \<Rightarrow> [[c]]
            | p # ps \<Rightarrow> (c # p) # ps))"

definition is_digit :: "char \<Rightarrow> bool" where
  "is_digit c = (let n = (of_char c :: nat) in 48 \<le> n \<and> n \<le> 57)"

definition digit_value :: "char \<Rightarrow> nat" where
  "digit_value c = (of_char c :: nat) - 48"

definition lower :: "char \<Rightarrow> char" where
  "lower c = (let n = (of_char c :: nat) in if 65 \<le> n \<and> n \<le> 90 then char_of (n + 32) else c)"

text \<open>
  The digits of a \<open>digitpart\<close> after its first digit: digits, each optionally preceded by
  one underscore. Returns the digits read and the text left.
\<close>

fun more_digits :: "string \<Rightarrow> nat list \<times> string" where
  "more_digits [] = ([], [])"
| "more_digits [c] = (if is_digit c then ([digit_value c], []) else ([], [c]))"
| "more_digits (c # d # cs) =
     (if is_digit c then (case more_digits (d # cs) of (ds, r) \<Rightarrow> (digit_value c # ds, r))
      else if c = CHR ''_'' \<and> is_digit d then
        (case more_digits cs of (ds, r) \<Rightarrow> (digit_value d # ds, r))
      else ([], c # d # cs))"

definition digitpart :: "string \<Rightarrow> (nat list \<times> string) option" where
  "digitpart s =
     (case s of
        [] \<Rightarrow> None
      | c # cs \<Rightarrow>
          if is_digit c then (case more_digits cs of (ds, r) \<Rightarrow> Some (digit_value c # ds, r))
          else None)"

definition digits_value :: "nat list \<Rightarrow> nat" where
  "digits_value ds = foldl (\<lambda>a d. 10 * a + d) 0 ds"

text \<open>An optional sign: the factor and the text after it.\<close>

definition take_sign :: "string \<Rightarrow> int \<times> string" where
  "take_sign s =
     (case s of
        c # cs \<Rightarrow> if c = CHR ''-'' then (- 1, cs) else if c = CHR ''+'' then (1, cs) else (1, s)
      | [] \<Rightarrow> (1, s))"

text \<open>The exponent part and the end of the literal: nothing may follow.\<close>

definition exponent :: "string \<Rightarrow> int option" where
  "exponent s =
     (case s of
        [] \<Rightarrow> Some 0
      | c # cs \<Rightarrow>
          if lower c = CHR ''e'' then
            (case take_sign cs of
               (sg, r) \<Rightarrow>
                 (case digitpart r of
                    Some (ds, []) \<Rightarrow> Some (sg * int (digits_value ds))
                  | _ \<Rightarrow> None))
          else None)"

definition scale10 :: "real \<Rightarrow> int \<Rightarrow> real" where
  "scale10 m e = (if 0 \<le> e then m * 10 ^ nat e else m / 10 ^ nat (- e))"

definition decimal :: "nat list \<Rightarrow> nat list \<Rightarrow> string \<Rightarrow> real option" where
  "decimal ip fp rest =
     (case exponent rest of
        None \<Rightarrow> None
      | Some e \<Rightarrow>
          Some (scale10 (real (digits_value ip) + real (digits_value fp) / 10 ^ length fp) e))"

text \<open>
  \<open>float(s)\<close> for a string: surrounding whitespace is dropped (\<open>float_strip\<close>); an optional sign; then
  \<open>inf\<close>, \<open>infinity\<close> or \<open>nan\<close> in any case, or a decimal literal: digits, an optional
  point and fraction (or a point and digits), an optional exponent. Anything else raises
  ValueError. The value is the literal's exact value.
\<close>

definition py_float :: "string \<Rightarrow> py_error + pyfloat" where
  "py_float s =
     (case take_sign (float_strip s) of
        (sg, u) \<Rightarrow>
          let w = map lower u in
          if w = ''inf'' \<or> w = ''infinity'' then Inr (if sg < 0 then NInf else PInf)
          else if w = ''nan'' then Inr NaN
          else
            (case (case digitpart u of
                     Some (ip, r1) \<Rightarrow>
                       (case r1 of
                          [] \<Rightarrow> decimal ip [] r1
                        | c # r2 \<Rightarrow>
                            if c = CHR ''.'' then
                              (case digitpart r2 of
                                 Some (fp, r3) \<Rightarrow> decimal ip fp r3
                               | None \<Rightarrow> decimal ip [] r2)
                            else decimal ip [] r1)
                   | None \<Rightarrow>
                       (case u of
                          [] \<Rightarrow> None
                        | c # r2 \<Rightarrow>
                            if c = CHR ''.'' then
                              (case digitpart r2 of
                                 Some (fp, r3) \<Rightarrow> decimal [] fp r3
                               | None \<Rightarrow> None)
                            else None)) of
               None \<Rightarrow> Inl ValueError
             | Some v \<Rightarrow> Inr (Fin (real_of_int sg * v))))"

subsection \<open>The holdings file\<close>

record holding =
  h_ticker :: ticker
  h_prix_achat :: pyfloat
  h_quantite :: pyfloat
  h_dividendes_totaux :: pyfloat

text \<open>
  The body of the loop of \<open>lire_portefeuille\<close> for one line of the file: \<open>None\<close> for a blank
  line (\<open>continue\<close>), otherwise the row appended, or the exception raised (IndexError for
  a missing field, ValueError for a field \<open>float\<close> refuses).
\<close>

definition parse_line :: "string \<Rightarrow> py_error + holding option" where
  "parse_line raw =
     (let line = strip raw in
      if line = [] then Inr None
      else
        let parts = split CHR ''/'' line;
            ticker = parts ! 0
        in
        if length parts \<le> 1 then Inl IndexError
        else case py_float (parts ! 1) of
          Inl e \<Rightarrow> Inl e
        | Inr prix_entree \<Rightarrow>
        if length parts \<le> 2 then Inl IndexError
        else case py_float (parts ! 2) of
          Inl e \<Rightarrow> Inl e
        | Inr quantite \<Rightarrow>
        case (if 3 < length parts then py_float (parts ! 3) else Inr (Fin 0)) of
          Inl e \<Rightarrow> Inl e
        | Inr dividende_unitaire \<Rightarrow>
            let dividende_total = f_mul dividende_unitaire quantite
            in Inr (Some \<lparr>h_ticker = ticker, h_prix_achat = prix_entree,
                           h_quantite = quantite, h_dividendes_totaux = dividende_total\<rparr>))"

fun read_lines :: "string list \<Rightarrow> holding list \<Rightarrow> py_error + holding list" where
  "read_lines [] data = Inr data"
| "read_lines (l # ls) data =
     (case parse_line l of
        Inl e \<Rightarrow> Inl e
      | Inr None \<Rightarrow> read_lines ls data
      | Inr (Some row) \<Rightarrow> read_lines ls (data @ [row]))"

text \<open>The file system: the lines of each file that can be opened.\<close>

definition lire_portefeuille :: "(string \<rightharpoonup> string list) \<Rightarrow> string \<Rightarrow> py_error + holding list" where
  "lire_portefeuille fs file_path =
     (case fs file_path of
        None \<Rightarrow> Inl FileNotFoundError
      | Some ls \<Rightarrow> read_lines ls [])"

subsection \<open>Valuation\<close>

text \<open>
  \<open>get_current_price\<close>: the last close of the one-day history, or \<open>None\<close> when the fetch
  raises or the history is empty (the IndexError is caught).
\<close>

definition get_current_price :: "market \<Rightarrow> nat \<Rightarrow> ticker \<Rightarrow> pyfloat option" where
  "get_current_price fetch k ticker =
     (case fetch k ticker ''1d'' of
        Raises e \<Rightarrow> None
      | Returns hist \<Rightarrow> if hist = [] then None else Some (snd (last hist)))"

record valued = holding +
  cours_actuel :: pyfloat
  valeur_totale :: pyfloat
  performance :: pyfloat
  rendement_sur_cout :: pyfloat

text \<open>One row of \<open>calculs_financiers\<close>; a price of \<open>None\<close> is NaN in the column.\<close>

definition calculs_row :: "holding \<Rightarrow> pyfloat option \<Rightarrow> valued" where
  "calculs_row h price =
     (let cours = (case price of None \<Rightarrow> NaN | Some p \<Rightarrow> p) in
      holding.extend h
        (valued.fields cours
           (f_mul cours (h_quantite h))
           (round2 (f_mul (f_div (f_sub cours (h_prix_achat h)) (h_prix_achat h)) (Fin 100)))
           (round2 (f_mul (f_div (h_dividendes_totaux h) (f_mul (h_prix_achat h) (h_quantite h)))
                      (Fin 100)))))"

definition calculs_financiers :: "market \<Rightarrow> holding list \<Rightarrow> valued list" where
  "calculs_financiers fetch df =
     map (\<lambda>(k, h). calculs_row h (get_current_price fetch k (h_ticker h))) (enumerate 0 df)"

text \<open>\<open>df[['Ticker', 'Valeur totale']]\<close>, what \<open>main\<close> gives the risk dashboard.\<close>

definition df_portfolio_of :: "valued list \<Rightarrow> labelled" where
  "df_portfolio_of df = map (\<lambda>r. (h_ticker r, valeur_totale r)) df"

section \<open>The specification's reading of the weighted return series\<close>

text \<open>
  The specification's words for the Value-at-Risk engine: for each date, the sum over the
  tickers of the weight vector of weight times that ticker's return on that date.
\<close>

definition return_of :: "frame \<Rightarrow> ticker \<Rightarrow> nat \<Rightarrow> pyfloat" where
  "return_of returns t k = (case map_of (frame_columns returns) t of Some c \<Rightarrow> c ! k | None \<Rightarrow> NaN)"

definition weighted_return_series_spec :: "frame \<Rightarrow> labelled \<Rightarrow> pyfloat list" where
  "weighted_return_series_spec returns weights =
     map (\<lambda>k. foldl f_add (Fin 0) (map (\<lambda>(t, w). f_mul w (return_of returns t k)) weights))
       [0..<length (frame_index returns)]"

section \<open>Linear interpolation on a sorted array of reals\<close>

text \<open>
  What \<open>np.percentile\<close> computes on an array of finite numbers, once sorted: the value at
  the virtual index \<open>h\<close>, interpolated between the elements at its floor and the next
  position, and the last element from the last index on.
\<close>

definition interpolate :: "real list \<Rightarrow> real \<Rightarrow> real" where
  "interpolate s h =
     (if real (length s - 1) \<le> h then s ! (length s - 1)
      else s ! nat \<lfloor>h\<rfloor> + (h - real (nat \<lfloor>h\<rfloor>)) * (s ! (nat \<lfloor>h\<rfloor> + 1) - s ! nat \<lfloor>h\<rfloor>))"

section \<open>Properties\<close>

subsection \<open>The holdings file\<close>

lemma read_lines_skips_blank:
  "read_lines (filter (\<lambda>l. strip l \<noteq> []) ls) data = read_lines ls data"
proof (induction ls arbitrary: data)
  case Nil
  show ?case by simp
next
  case (Cons l ls)
  show ?case
  proof (cases "strip l = []")
    case True
    then have "parse_line l = Inr None" by (simp add: parse_line_def)
    with True show ?thesis using Cons.IH by simp
  next
    case False
    then show ?thesis using Cons.IH by (simp split: sum.splits option.splits)
  qed
qed

lemma parse_line_row:
  assumes "parse_line l = Inr (Some row)"
  shows "strip l \<noteq> [] \<and>
     (\<exists>prix q d. row = \<lparr>h_ticker = split CHR ''/'' (strip l) ! 0, h_prix_achat = prix,
                       h_quantite = q, h_dividendes_totaux = f_mul d q\<rparr> \<and>
        py_float (split CHR ''/'' (strip l) ! 1) = Inr prix \<and>
        py_float (split CHR ''/'' (strip l) ! 2) = Inr q \<and>
        (if 3 < length (split CHR ''/'' (strip l))
         then py_float (split CHR ''/'' (strip l) ! 3) = Inr d else d = Fin 0))"
  using assms
  by (auto simp: parse_line_def Let_def split: if_splits sum.splits)

lemma parse_line_blank: "(parse_line l = Inr None) = (strip l = [])"
  by (auto simp add: parse_line_def Let_def split: if_splits sum.splits)

lemma read_lines_rows:
  "(read_lines ls data = Inr rows) =
     (\<exists>new. rows = data @ new \<and>
        map parse_line (filter (\<lambda>l. strip l \<noteq> []) ls) = map (\<lambda>r. Inr (Some r)) new)"
proof (induction ls arbitrary: data)
  case Nil
  show ?case by auto
next
  case (Cons l ls)
  show ?case
  proof (cases "parse_line l")
    case (Inl e)
    then have "strip l \<noteq> []" using parse_line_blank [of l] by auto
    with Inl show ?thesis by (auto simp add: Cons_eq_map_conv)
  next
    case (Inr res)
    show ?thesis
    proof (cases res)
      case None
      with Inr have "strip l = []" using parse_line_blank [of l] by simp
      with Inr None show ?thesis using Cons.IH [of data] by simp
    next
      case (Some row)
      with Inr have ne: "strip l \<noteq> []" using parse_line_blank [of l] by auto
      show ?thesis
        using Inr Some ne Cons.IH [of "data @ [row]"]
        by (auto simp add: Cons_eq_map_conv)
    qed
  qed
qed

text \<open>
  Claim C9. Reading a holdings file is reading its lines that are not blank, and it returns
  rows exactly when every line that is not blank gives a row: then the rows are those of
  the lines that are not blank, one per line, in the order of the file. A blank line
  gives no row. A line that is not blank, with at least three parts of which the second
  and third (and the fourth, if there is one) are numbers for \<open>float\<close>, gives the row
  described next, and only such a line gives a row.
  A row comes from a line that is not blank, split on \<open>/\<close>: the ticker is the
  first part, the entry price and the quantity are \<open>float\<close> of the second and third, and the
  total dividends are the dividend per unit (\<open>float\<close> of the fourth part, or 0 when there is
  none) times the quantity. The line \<open>AAPL/150.0/10/2.5\<close> gives total dividends 25.0, and
  with a current price of 180 its performance is 20.00 percent.
\<close>

theorem lire_portefeuille_rows:
  "(lire_portefeuille fs path =
      (case fs path of
         None \<Rightarrow> Inl FileNotFoundError
       | Some ls \<Rightarrow> read_lines (filter (\<lambda>l. strip l \<noteq> []) ls) []))
   \<and> (strip l = [] \<longrightarrow> parse_line l = Inr None)
   \<and> (parse_line l = Inr (Some row) \<longrightarrow>
        strip l \<noteq> [] \<and>
        (\<exists>prix q d. row = \<lparr>h_ticker = split CHR ''/'' (strip l) ! 0, h_prix_achat = prix,
                          h_quantite = q, h_dividendes_totaux = f_mul d q\<rparr> \<and>
           py_float (split CHR ''/'' (strip l) ! 1) = Inr prix \<and>
           py_float (split CHR ''/'' (strip l) ! 2) = Inr q \<and>
           (if 3 < length (split CHR ''/'' (strip l))
            then py_float (split CHR ''/'' (strip l) ! 3) = Inr d else d = Fin 0)))
   \<and> (strip l \<noteq> [] \<and> 2 < length (split CHR ''/'' (strip l)) \<and>
        py_float (split CHR ''/'' (strip l) ! 1) = Inr prix \<and>
        py_float (split CHR ''/'' (strip l) ! 2) = Inr q \<and>
        (if 3 < length (split CHR ''/'' (strip l))
         then py_float (split CHR ''/'' (strip l) ! 3) = Inr d else d = Fin 0) \<longrightarrow>
        parse_line l =
          Inr (Some \<lparr>h_ticker = split CHR ''/'' (strip l) ! 0, h_prix_achat = prix,
                     h_quantite = q, h_dividendes_totaux = f_mul d q\<rparr>))
   \<and> (fs path = Some ls \<longrightarrow>
        (lire_portefeuille fs path = Inr rows) =
        (map parse_line (filter (\<lambda>l. strip l \<noteq> []) ls) = map (\<lambda>r. Inr (Some r)) rows))
   \<and> lire_portefeuille [''portefeuille.txt'' \<mapsto> [''AAPL/150.0/10/2.5'' @ [CHR 0x0A]]]
        ''portefeuille.txt'' =
      Inr [\<lparr>h_ticker = ''AAPL'', h_prix_achat = Fin 150, h_quantite = Fin 10,
            h_dividendes_totaux = Fin 25\<rparr>]
   \<and> map performance
        (calculs_financiers (\<lambda>k t p. Returns [(0, Fin 180)])
           [\<lparr>h_ticker = ''AAPL'', h_prix_achat = Fin 150, h_quantite = Fin 10,
             h_dividendes_totaux = Fin 25\<rparr>]) = [Fin 20]"
proof (intro conjI)
  show "lire_portefeuille fs path =
      (case fs path of
         None \<Rightarrow> Inl FileNotFoundError
       | Some ls \<Rightarrow> read_lines (filter (\<lambda>l. strip l \<noteq> []) ls) [])"
    by (simp add: lire_portefeuille_def read_lines_skips_blank split: option.splits)
  show "strip l = [] \<longrightarrow> parse_line l = Inr None"
    by (simp add: parse_line_def)
  show "parse_line l = Inr (Some row) \<longrightarrow>
        strip l \<noteq> [] \<and>
        (\<exists>prix q d. row = \<lparr>h_ticker = split CHR ''/'' (strip l) ! 0, h_prix_achat = prix,
                          h_quantite = q, h_dividendes_totaux = f_mul d q\<rparr> \<and>
           py_float (split CHR ''/'' (strip l) ! 1) = Inr prix \<and>
           py_float (split CHR ''/'' (strip l) ! 2) = Inr q \<and>
           (if 3 < length (split CHR ''/'' (strip l))
            then py_float (split CHR ''/'' (strip l) ! 3) = Inr d else d = Fin 0))"
    using parse_line_row by blast
  show "strip l \<noteq> [] \<and> 2 < length (split CHR ''/'' (strip l)) \<and>
        py_float (split CHR ''/'' (strip l) ! 1) = Inr prix \<and>
        py_float (split CHR ''/'' (strip l) ! 2) = Inr q \<and>
        (if 3 < length (split CHR ''/'' (strip l))
         then py_float (split CHR ''/'' (strip l) ! 3) = Inr d else d = Fin 0) \<longrightarrow>
        parse_line l =
          Inr (Some \<lparr>h_ticker = split CHR ''/'' (strip l) ! 0, h_prix_achat = prix,
                     h_quantite = q, h_dividendes_totaux = f_mul d q\<rparr>)"
    by (auto simp add: parse_line_def Let_def split: if_splits)
  show "fs path = Some ls \<longrightarrow>
        (lire_portefeuille fs path = Inr rows) =
        (map parse_line (filter (\<lambda>l. strip l \<noteq> []) ls) = map (\<lambda>r. Inr (Some r)) rows)"
    by (simp add: lire_portefeuille_def read_lines_rows [of ls "[]" rows])
  show "lire_portefeuille [''portefeuille.txt'' \<mapsto> [''AAPL/150.0/10/2.5'' @ [CHR 0x0A]]]
        ''portefeuille.txt'' =
      Inr [\<lparr>h_ticker = ''AAPL'', h_prix_achat = Fin 150, h_quantite = Fin 10,
            h_dividendes_totaux = Fin 25\<rparr>]"
    by code_simp
  show "map performance
        (calculs_financiers (\<lambda>k t p. Returns [(0, Fin 180)])
           [\<lparr>h_ticker = ''AAPL'', h_prix_achat = Fin 150, h_quantite = Fin 10,
             h_dividendes_totaux = Fin 25\<rparr>]) = [Fin 20]"
    by code_simp
qed

theorem lire_portefeuille_rows_witness:
  "parse_line ''MSFT/300/2'' =
     Inr (Some \<lparr>h_ticker = ''MSFT'', h_prix_achat = Fin 300, h_quantite = Fin 2,
                h_dividendes_totaux = Fin 0\<rparr>)
   \<and> strip ''MSFT/300/2'' \<noteq> []
   \<and> length (split CHR ''/'' (strip ''MSFT/300/2'')) = 3
   \<and> parse_line '' '' = Inr None
   \<and> py_float (split CHR ''/'' (strip ''MSFT/300/2'') ! 1) = Inr (Fin 300)
   \<and> py_float (split CHR ''/'' (strip ''MSFT/300/2'') ! 2) = Inr (Fin 2)
   \<and> split CHR ''/'' (strip ''MSFT/300/2'') ! 0 = ''MSFT''
   \<and> [''portefeuille.txt'' \<mapsto>
        [''AAPL/150.0/10/2.5'' @ [CHR 0x0A], [CHR 0x0A], ''MSFT/300/2'' @ [CHR 0x0A],
         ''  '' @ [CHR 0x0A], ''KO/50/4/1.5'']] ''portefeuille.txt''
      = Some [''AAPL/150.0/10/2.5'' @ [CHR 0x0A], [CHR 0x0A], ''MSFT/300/2'' @ [CHR 0x0A],
              ''  '' @ [CHR 0x0A], ''KO/50/4/1.5'']
   \<and> lire_portefeuille
        [''portefeuille.txt'' \<mapsto>
           [''AAPL/150.0/10/2.5'' @ [CHR 0x0A], [CHR 0x0A], ''MSFT/300/2'' @ [CHR 0x0A],
            ''  '' @ [CHR 0x0A], ''KO/50/4/1.5'']] ''portefeuille.txt''
      = Inr [\<lparr>h_ticker = ''AAPL'', h_prix_achat = Fin 150, h_quantite = Fin 10,
               h_dividendes_totaux = Fin 25\<rparr>,
             \<lparr>h_ticker = ''MSFT'', h_prix_achat = Fin 300, h_quantite = Fin 2,
               h_dividendes_totaux = Fin 0\<rparr>,
             \<lparr>h_ticker = ''KO'', h_prix_achat = Fin 50, h_quantite = Fin 4,
               h_dividendes_totaux = Fin 6\<rparr>]"
proof -
  let ?ls = "[''AAPL/150.0/10/2.5'' @ [CHR 0x0A], [CHR 0x0A], ''MSFT/300/2'' @ [CHR 0x0A],
              ''  '' @ [CHR 0x0A], ''KO/50/4/1.5'']"
  let ?rows = "[\<lparr>h_ticker = ''AAPL'', h_prix_achat = Fin 150, h_quantite = Fin 10,
                  h_dividendes_totaux = Fin 25\<rparr>,
                \<lparr>h_ticker = ''MSFT'', h_prix_achat = Fin 300, h_quantite = Fin 2,
                  h_dividendes_totaux = Fin 0\<rparr>,
                \<lparr>h_ticker = ''KO'', h_prix_achat = Fin 50, h_quantite = Fin 4,
                  h_dividendes_totaux = Fin 6\<rparr>]"
  have b: "strip '' '' = []"
    by code_simp
  have n: "length (split CHR ''/'' (strip ''MSFT/300/2'')) = 3"
    by code_simp
  have s0: "strip ''MSFT/300/2'' \<noteq> []"
    by code_simp
  have f1: "py_float (split CHR ''/'' (strip ''MSFT/300/2'') ! 1) = Inr (Fin 300)"
    by code_simp
  have f2: "py_float (split CHR ''/'' (strip ''MSFT/300/2'') ! 2) = Inr (Fin 2)"
    by code_simp
  have t0: "split CHR ''/'' (strip ''MSFT/300/2'') ! 0 = ''MSFT''"
    by code_simp
  have n2: "2 < length (split CHR ''/'' (strip ''MSFT/300/2''))"
    unfolding n by simp
  have i: "if 3 < length (split CHR ''/'' (strip ''MSFT/300/2''))
           then py_float (split CHR ''/'' (strip ''MSFT/300/2'') ! 3) = Inr (Fin 0)
           else Fin 0 = Fin 0"
    unfolding n by simp
  have m0: "f_mul (Fin 0) (Fin 2) = Fin 0" by simp
  note conv = lire_portefeuille_rows [where fs = Map.empty and path = "''x''"
      and l = "''MSFT/300/2''" and prix = "Fin 300" and q = "Fin 2" and d = "Fin 0",
      THEN conjunct2, THEN conjunct2, THEN conjunct2, THEN conjunct1, rule_format]
  have p: "parse_line ''MSFT/300/2'' =
     Inr (Some \<lparr>h_ticker = ''MSFT'', h_prix_achat = Fin 300, h_quantite = Fin 2,
                h_dividendes_totaux = Fin 0\<rparr>)"
    using conv [OF conjI [OF s0 conjI [OF n2 conjI [OF f1 conjI [OF f2 i]]]]]
    unfolding t0 m0 .
  have f: "[''portefeuille.txt'' \<mapsto> ?ls] ''portefeuille.txt'' = Some ?ls"
    by simp
  have m: "map parse_line (filter (\<lambda>l. strip l \<noteq> []) ?ls) = map (\<lambda>r. Inr (Some r)) ?rows"
    by code_simp
  from lire_portefeuille_rows [where fs = Map.empty and path = "''x''" and l = "''MSFT/300/2''"
      and row = "\<lparr>h_ticker = ''MSFT'', h_prix_achat = Fin 300, h_quantite = Fin 2,
        h_dividendes_totaux = Fin 0\<rparr>"] p
  have s: "strip ''MSFT/300/2'' \<noteq> []" by blast
  from lire_portefeuille_rows [where fs = Map.empty and path = "''x''" and l = "'' ''"] b
  have e: "parse_line '' '' = Inr None" by blast
  from lire_portefeuille_rows [where fs = "[''portefeuille.txt'' \<mapsto> ?ls]"
      and path = "''portefeuille.txt''" and ls = ?ls and rows = ?rows] f m
  have r: "lire_portefeuille [''portefeuille.txt'' \<mapsto> ?ls] ''portefeuille.txt'' = Inr ?rows"
    by blast
  from p s n e f1 f2 t0 f r show ?thesis by (intro conjI)
qed

subsection \<open>Fetching price histories\<close>

lemma loop_all_fail:
  "\<forall>i<length ts. fetch_fails (fetch (k + i) (ts ! i) p) \<Longrightarrow>
   \<exists>out'. get_price_history_loop fetch p k ts (ph, ms, out) = (ph, ms @ ts, out')"
proof (induction ts arbitrary: k ms out)
  case Nil
  show ?case by simp
next
  case (Cons t ts)
  from Cons.prems have h0: "fetch_fails (fetch k t p)"
    by (metis add.right_neutral length_greater_0_conv list.distinct(1) nth_Cons_0)
  from Cons.prems have rest: "\<forall>i<length ts. fetch_fails (fetch (Suc k + i) (ts ! i) p)"
    by fastforce
  show ?case
  proof (cases "fetch k t p")
    case (Raises e)
    with Cons.IH [where k = "Suc k" and ms = "ms @ [t]"
        and out = "out @ [''Erreur pour '' @ t @ '': '' @ e]"] rest
    show ?thesis by simp
  next
    case (Returns hist)
    with h0 have "hist = []" by (simp add: fetch_fails_def)
    with Returns Cons.IH [where k = "Suc k" and ms = "ms @ [t]" and out = out] rest
    show ?thesis by simp
  qed
qed

lemma DataFrame_Nil: "DataFrame [] = \<lparr>frame_index = [], frame_columns = []\<rparr>"
  by (simp add: DataFrame_def)

lemma all_fail_no_data:
  assumes "\<forall>i<length ts. fetch_fails (fetch i (ts ! i) p)"
  shows "frame_empty (fst (get_price_history fetch ts p))
         \<and> fst (snd (get_price_history fetch ts p)) = ts"
proof -
  from assms have "\<forall>i<length ts. fetch_fails (fetch (0 + i) (ts ! i) p)" by simp
  from loop_all_fail [where fetch = fetch and k = 0 and ts = ts and p = p
      and ph = "[]" and ms = "[]" and out = "[]"] this
  obtain out' where "get_price_history_loop fetch p 0 ts ([], [], []) = ([], ts, out')"
    by auto
  then show ?thesis
    by (simp add: get_price_history_def DataFrame_Nil dropna_columns_all_def frame_empty_def)
qed

lemma dashboard_no_data:
  assumes "get_price_history fetch (map fst df) (LOOKBACK_DAYS @ ''d'') = (price_df, missing, out)"
    and "frame_empty price_df"
  shows "show_risk_dashboard fetch z df =
           Inr \<lparr>warnings =
                  (if missing = [] then [] else [''Aucun historique pour : '' @ join '', '' missing])
                  @ [''Aucun historique de prix disponible pour les tickers valides.''],
                printed = out, view = None, returned = (None, None, None)\<rparr>"
  using assms by (simp add: show_risk_dashboard_def Let_def)

text \<open>
  Claim C1. When the price frame \<open>get_price_history\<close> returns is empty, the dashboard
  returns normally (no exception): it shows the warning for the missing tickers (if any) and
  the warning that no price history is available, shows no indicator, correlation or
  projection (\<open>view = None\<close>), and returns \<open>(None, None, None)\<close>. When every requested
  ticker's fetch raises or returns an empty history, the price frame is empty and the missing
  list is the whole list of requested tickers.
\<close>

theorem no_data_sentinel:
  "(get_price_history fetch (map fst df) (LOOKBACK_DAYS @ ''d'') = (price_df, missing, out) \<and>
    frame_empty price_df \<longrightarrow>
      show_risk_dashboard fetch z df =
        Inr \<lparr>warnings =
               (if missing = [] then [] else [''Aucun historique pour : '' @ join '', '' missing])
               @ [''Aucun historique de prix disponible pour les tickers valides.''],
             printed = out, view = None, returned = (None, None, None)\<rparr>)
   \<and> ((\<forall>i<length df. fetch_fails (fetch i (fst (df ! i)) (LOOKBACK_DAYS @ ''d''))) \<longrightarrow>
        frame_empty (fst (get_price_history fetch (map fst df) (LOOKBACK_DAYS @ ''d''))) \<and>
        fst (snd (get_price_history fetch (map fst df) (LOOKBACK_DAYS @ ''d''))) = map fst df)"
proof (intro conjI impI)
  assume "get_price_history fetch (map fst df) (LOOKBACK_DAYS @ ''d'') = (price_df, missing, out) \<and>
    frame_empty price_df"
  then show "show_risk_dashboard fetch z df =
        Inr \<lparr>warnings =
               (if missing = [] then [] else [''Aucun historique pour : '' @ join '', '' missing])
               @ [''Aucun historique de prix disponible pour les tickers valides.''],
             printed = out, view = None, returned = (None, None, None)\<rparr>"
    using dashboard_no_data by blast
next
  assume a: "\<forall>i<length df. fetch_fails (fetch i (fst (df ! i)) (LOOKBACK_DAYS @ ''d''))"
  then have "\<forall>i<length (map fst df). fetch_fails (fetch i (map fst df ! i) (LOOKBACK_DAYS @ ''d''))"
    by simp
  with all_fail_no_data [where fetch = fetch and ts = "map fst df" and p = "LOOKBACK_DAYS @ ''d''"]
  show "frame_empty (fst (get_price_history fetch (map fst df) (LOOKBACK_DAYS @ ''d'')))"
    and "fst (snd (get_price_history fetch (map fst df) (LOOKBACK_DAYS @ ''d''))) = map fst df"
    by simp_all
qed

theorem no_data_sentinel_witness:
  "fetch_fails (Raises ''timeout'') \<and> fetch_fails (Returns [])
   \<and> show_risk_dashboard (\<lambda>k t p. if k = 0 then Raises ''timeout'' else Returns [])
        (\<lambda>k. 0) [(''AAPL'', Fin 1800), (''MSFT'', Fin 600)] =
      Inr \<lparr>warnings = [''Aucun historique pour : AAPL, MSFT'',
                        ''Aucun historique de prix disponible pour les tickers valides.''],
           printed = [''Erreur pour AAPL: timeout''], view = None,
           returned = (None, None, None)\<rparr>"
proof -
  let ?fetch = "\<lambda>(k::nat) (t::ticker) (p::string). if k = 0 then Raises ''timeout'' else Returns []"
  let ?df = "[(''AAPL'', Fin 1800), (''MSFT'', Fin 600)]"
  have f: "fetch_fails (Raises ''timeout'')" "fetch_fails (Returns [])"
    by (simp_all add: fetch_fails_def)
  have g: "get_price_history ?fetch (map fst ?df) (LOOKBACK_DAYS @ ''d'') =
             (\<lparr>frame_index = [], frame_columns = []\<rparr>, [''AAPL'', ''MSFT''],
              [''Erreur pour AAPL: timeout''])"
    by (simp add: get_price_history_def DataFrame_Nil dropna_columns_all_def)
  have e: "frame_empty \<lparr>frame_index = [], frame_columns = []\<rparr>"
    by (simp add: frame_empty_def)
  from no_data_sentinel [of ?fetch ?df "\<lparr>frame_index = [], frame_columns = []\<rparr>"
      "[''AAPL'', ''MSFT'']" "[''Erreur pour AAPL: timeout'']" "\<lambda>k. 0"] g e
  have "show_risk_dashboard ?fetch (\<lambda>k. 0) ?df =
      Inr \<lparr>warnings =
             (if [''AAPL'', ''MSFT''] = [] then []
              else [''Aucun historique pour : '' @ join '', '' [''AAPL'', ''MSFT'']])
             @ [''Aucun historique de prix disponible pour les tickers valides.''],
           printed = [''Erreur pour AAPL: timeout''], view = None,
           returned = (None, None, None)\<rparr>"
    by blast
  then show ?thesis using f by simp
qed

lemma set_update_subset: "set (AList.update k v al) \<subseteq> insert (k, v) (set al)"
  by (induction al) auto

lemma loop_step_cases:
  assumes "get_price_history_loop fetch p k (t # ts) (ph, ms, out) = r"
  obtains (raises) e where "fetch k t p = Raises e"
      "get_price_history_loop fetch p (Suc k) ts
         (ph, ms @ [t], out @ [''Erreur pour '' @ t @ '': '' @ e]) = r"
  | (empty) "fetch k t p = Returns []"
      "get_price_history_loop fetch p (Suc k) ts (ph, ms @ [t], out) = r"
  | (hist) h where "h \<noteq> []" "fetch k t p = Returns h"
      "get_price_history_loop fetch p (Suc k) ts (AList.update t h ph, ms, out) = r"
proof (cases "fetch k t p")
  case (Raises e)
  with assms raises show ?thesis by simp
next
  case (Returns h)
  show ?thesis
  proof (cases "h = []")
    case True
    with Returns assms empty show ?thesis by simp
  next
    case False
    with Returns assms hist show ?thesis by simp
  qed
qed

lemma loop_missing_mono:
  "get_price_history_loop fetch p k ts (ph, ms, out) = (ph', ms', out') \<Longrightarrow> set ms \<subseteq> set ms'"
proof (induction ts arbitrary: k ph ms out)
  case Nil
  then show ?case by simp
next
  case (Cons t ts)
  from Cons.prems show ?case
  proof (cases rule: loop_step_cases)
    case (raises e)
    from Cons.IH [OF raises(2)] show ?thesis by simp
  next
    case empty
    from Cons.IH [OF empty(2)] show ?thesis by simp
  next
    case (hist h)
    from Cons.IH [OF hist(3)] show ?thesis .
  qed
qed

lemma loop_keys_grow:
  "get_price_history_loop fetch p k ts (ph, ms, out) = (ph', ms', out') \<Longrightarrow>
   fst ` set ph \<subseteq> fst ` set ph'"
proof (induction ts arbitrary: k ph ms out)
  case Nil
  then show ?case by simp
next
  case (Cons t ts)
  from Cons.prems show ?case
  proof (cases rule: loop_step_cases)
    case (raises e)
    from Cons.IH [OF raises(2)] show ?thesis .
  next
    case empty
    from Cons.IH [OF empty(2)] show ?thesis .
  next
    case (hist h)
    from Cons.IH [OF hist(3)] have "fst ` set (AList.update t h ph) \<subseteq> fst ` set ph'" .
    then show ?thesis by (simp add: dom_update)
  qed
qed

lemma loop_failing_missing:
  "get_price_history_loop fetch p k ts (ph, ms, out) = (ph', ms', out') \<Longrightarrow>
   i < length ts \<Longrightarrow> fetch_fails (fetch (k + i) (ts ! i) p) \<Longrightarrow> ts ! i \<in> set ms'"
proof (induction ts arbitrary: k ph ms out i)
  case Nil
  then show ?case by simp
next
  case (Cons t ts)
  show ?case
  proof (cases i)
    case 0
    with Cons.prems have ff: "fetch_fails (fetch k t p)" by simp
    from Cons.prems(1) have "t \<in> set ms'"
    proof (cases rule: loop_step_cases)
      case (raises e)
      from loop_missing_mono [OF raises(2)] show ?thesis by simp
    next
      case empty
      from loop_missing_mono [OF empty(2)] show ?thesis by simp
    next
      case (hist h)
      with ff show ?thesis by (simp add: fetch_fails_def)
    qed
    with 0 show ?thesis by simp
  next
    case (Suc j)
    with Cons.prems have j: "j < length ts" "fetch_fails (fetch (Suc k + j) (ts ! j) p)"
      by simp_all
    from Cons.prems(1) have "ts ! j \<in> set ms'"
    proof (cases rule: loop_step_cases)
      case (raises e)
      from Cons.IH [OF raises(2) j] show ?thesis .
    next
      case empty
      from Cons.IH [OF empty(2) j] show ?thesis .
    next
      case (hist h)
      from Cons.IH [OF hist(3) j] show ?thesis .
    qed
    with Suc show ?thesis by simp
  qed
qed

lemma loop_missing_failed:
  "get_price_history_loop fetch p k ts (ph, ms, out) = (ph', ms', out') \<Longrightarrow>
   t \<in> set ms' \<Longrightarrow>
   t \<in> set ms \<or> (\<exists>i<length ts. ts ! i = t \<and> fetch_fails (fetch (k + i) t p))"
proof (induction ts arbitrary: k ph ms out)
  case Nil
  then show ?case by simp
next
  case (Cons u ts)
  have shift: "\<And>A. (\<exists>i<length ts. ts ! i = t \<and> fetch_fails (fetch (Suc k + i) t p)) \<Longrightarrow>
      (\<exists>i<length (u # ts). (u # ts) ! i = t \<and> fetch_fails (fetch (k + i) t p))"
  proof -
    assume "\<exists>i<length ts. ts ! i = t \<and> fetch_fails (fetch (Suc k + i) t p)"
    then obtain i where "i < length ts" "ts ! i = t" "fetch_fails (fetch (Suc k + i) t p)" by blast
    then have "Suc i < length (u # ts) \<and> (u # ts) ! Suc i = t \<and> fetch_fails (fetch (k + Suc i) t p)"
      by simp
    then show "\<exists>i<length (u # ts). (u # ts) ! i = t \<and> fetch_fails (fetch (k + i) t p)" by blast
  qed
  have here: "fetch_fails (fetch k u p) \<Longrightarrow> t = u \<Longrightarrow>
      (\<exists>i<length (u # ts). (u # ts) ! i = t \<and> fetch_fails (fetch (k + i) t p))"
  proof -
    assume "fetch_fails (fetch k u p)" "t = u"
    then have "0 < length (u # ts) \<and> (u # ts) ! 0 = t \<and> fetch_fails (fetch (k + 0) t p)" by simp
    then show ?thesis by blast
  qed
  from Cons.prems(1) show ?case
  proof (cases rule: loop_step_cases)
    case (raises e)
    then have ff: "fetch_fails (fetch k u p)" by (simp add: fetch_fails_def)
    from Cons.IH [OF raises(2) Cons.prems(2)] shift here [OF ff] show ?thesis by auto
  next
    case empty
    then have ff: "fetch_fails (fetch k u p)" by (simp add: fetch_fails_def)
    from Cons.IH [OF empty(2) Cons.prems(2)] shift here [OF ff] show ?thesis by auto
  next
    case (hist h)
    from Cons.IH [OF hist(3) Cons.prems(2)] shift show ?thesis by auto
  qed
qed

lemma loop_covers:
  "get_price_history_loop fetch p k ts (ph, ms, out) = (ph', ms', out') \<Longrightarrow>
   t \<in> set ts \<Longrightarrow> t \<in> set ms' \<or> t \<in> fst ` set ph'"
proof (induction ts arbitrary: k ph ms out)
  case Nil
  then show ?case by simp
next
  case (Cons u ts)
  from Cons.prems(1) show ?case
  proof (cases rule: loop_step_cases)
    case (raises e)
    from loop_missing_mono [OF raises(2)] have "u \<in> set ms'" by simp
    with Cons.IH [OF raises(2)] Cons.prems(2) show ?thesis by auto
  next
    case empty
    from loop_missing_mono [OF empty(2)] have "u \<in> set ms'" by simp
    with Cons.IH [OF empty(2)] Cons.prems(2) show ?thesis by auto
  next
    case (hist h)
    from loop_keys_grow [OF hist(3)] have "u \<in> fst ` set ph'" by (auto simp: dom_update)
    with Cons.IH [OF hist(3)] Cons.prems(2) show ?thesis by auto
  qed
qed

lemma loop_entries:
  "get_price_history_loop fetch p k ts (ph, ms, out) = (ph', ms', out') \<Longrightarrow>
   (t, h) \<in> set ph' \<Longrightarrow>
   (t, h) \<in> set ph \<or> (h \<noteq> [] \<and> (\<exists>i<length ts. ts ! i = t \<and> fetch (k + i) t p = Returns h))"
proof (induction ts arbitrary: k ph ms out)
  case Nil
  then show ?case by simp
next
  case (Cons u ts)
  have shift: "(\<exists>i<length ts. ts ! i = t \<and> fetch (Suc k + i) t p = Returns h) \<Longrightarrow>
      (\<exists>i<length (u # ts). (u # ts) ! i = t \<and> fetch (k + i) t p = Returns h)"
  proof -
    assume "\<exists>i<length ts. ts ! i = t \<and> fetch (Suc k + i) t p = Returns h"
    then obtain i where "i < length ts" "ts ! i = t" "fetch (Suc k + i) t p = Returns h" by blast
    then have "Suc i < length (u # ts) \<and> (u # ts) ! Suc i = t \<and> fetch (k + Suc i) t p = Returns h"
      by simp
    then show ?thesis by blast
  qed
  from Cons.prems(1) show ?case
  proof (cases rule: loop_step_cases)
    case (raises e)
    from Cons.IH [OF raises(2) Cons.prems(2)] shift show ?thesis by blast
  next
    case empty
    from Cons.IH [OF empty(2) Cons.prems(2)] shift show ?thesis by blast
  next
    case (hist g)
    from Cons.IH [OF hist(3) Cons.prems(2)]
    consider "(t, h) \<in> set (AList.update u g ph)"
      | "h \<noteq> []" "\<exists>i<length ts. ts ! i = t \<and> fetch (Suc k + i) t p = Returns h"
      by blast
    then show ?thesis
    proof cases
      case 1
      with set_update_subset [of u g ph] consider "t = u" "h = g" | "(t, h) \<in> set ph" by auto
      then show ?thesis
      proof cases
        case 1
        with hist have "0 < length (u # ts) \<and> (u # ts) ! 0 = t \<and> fetch (k + 0) t p = Returns h"
          by simp
        then have "\<exists>i<length (u # ts). (u # ts) ! i = t \<and> fetch (k + i) t p = Returns h" by blast
        with 1 hist show ?thesis by simp
      next
        case 2
        then show ?thesis by simp
      qed
    next
      case 2
      with shift show ?thesis by blast
    qed
  qed
qed

lemma DataFrame_column:
  "(t, h) \<in> set ph \<Longrightarrow>
   (t, map (\<lambda>dt. case map_of h dt of Some v \<Rightarrow> v | None \<Rightarrow> NaN)
         (sort (remdups (concat (map (\<lambda>(t, s). map fst s) ph)))))
     \<in> set (frame_columns (DataFrame ph))"
  by (force simp: DataFrame_def Let_def)

lemma DataFrame_columns_from:
  "(t, c) \<in> set (frame_columns (DataFrame ph)) \<Longrightarrow> \<exists>h. (t, h) \<in> set ph"
  by (auto simp: DataFrame_def Let_def)

lemma DataFrame_index_covers:
  "(t, h) \<in> set ph \<Longrightarrow> d \<in> fst ` set h \<Longrightarrow> d \<in> set (frame_index (DataFrame ph))"
  by (force simp: DataFrame_def Let_def)

lemma dropped_only_nan:
  assumes "(t, h) \<in> set ph" "h \<noteq> []"
    and "t \<notin> fst ` set (frame_columns (dropna_columns_all (DataFrame ph)))"
  shows "only_nan h"
proof -
  let ?idx = "sort (remdups (concat (map (\<lambda>(t, s). map fst s) ph)))"
  let ?c = "map (\<lambda>dt. case map_of h dt of Some v \<Rightarrow> v | None \<Rightarrow> NaN) ?idx"
  have idx: "frame_index (DataFrame ph) = ?idx" by (simp add: DataFrame_def Let_def)
  from DataFrame_column [OF assms(1)] have inc: "(t, ?c) \<in> set (frame_columns (DataFrame ph))" .
  have "\<not> list_ex (\<lambda>v. \<not> isnan v) ?c"
  proof
    assume "list_ex (\<lambda>v. \<not> isnan v) ?c"
    with inc have "(t, ?c) \<in> set (frame_columns (dropna_columns_all (DataFrame ph)))"
      by (simp add: dropna_columns_all_def)
    then have "t \<in> fst ` set (frame_columns (dropna_columns_all (DataFrame ph)))" by force
    with assms(3) show False by simp
  qed
  then have none: "\<forall>v\<in>set ?c. isnan v"
    unfolding list_ex_iff by blast
  have allnan: "\<forall>d\<in>set ?idx. isnan (case map_of h d of Some v \<Rightarrow> v | None \<Rightarrow> NaN)"
  proof
    fix d assume "d \<in> set ?idx"
    then have "(case map_of h d of Some v \<Rightarrow> v | None \<Rightarrow> NaN) \<in> set ?c"
      by (simp only: set_map) (rule imageI)
    with none show "isnan (case map_of h d of Some v \<Rightarrow> v | None \<Rightarrow> NaN)" by blast
  qed
  have "\<forall>d\<in>set (map fst h). map_of h d = Some NaN"
  proof
    fix d assume d: "d \<in> set (map fst h)"
    then have "d \<in> fst ` set h" by simp
    from DataFrame_index_covers [OF assms(1) this] idx have "d \<in> set ?idx" by simp
    with allnan have n: "isnan (case map_of h d of Some v \<Rightarrow> v | None \<Rightarrow> NaN)" by blast
    from d obtain v where v: "map_of h d = Some v"
      by (metis (no_types, lifting) image_iff list.set_map map_of_eq_None_iff not_Some_eq)
    with n have "isnan v" by simp
    then have "v = NaN" by (cases v) simp_all
    with v show "map_of h d = Some NaN" by simp
  qed
  with assms(2) show ?thesis by (simp add: only_nan_def list_all_iff)
qed

lemma kept_column_valid:
  "(t, c) \<in> set (frame_columns (dropna_columns_all f)) \<Longrightarrow>
   list_ex (\<lambda>v. \<not> isnan v) c \<and> (t, c) \<in> set (frame_columns f)"
  by (auto simp: dropna_columns_all_def)

text \<open>
  Claim C6, as the code has it. \<open>get_price_history\<close> returns for every list of tickers and
  every behaviour of the fetches (the model has no exception path out of it). A ticker whose
  fetch raises or returns an empty history is in the missing list, and the missing list holds
  only such tickers. Every requested ticker is a column of the returned frame, or is in the
  missing list, or was fetched with a history that is not empty and holds only NaN: that
  column is dropped by \<open>dropna(axis=1, how='all')\<close> and the ticker is not reported. Every
  column of the returned frame holds a value that is not NaN and comes from a fetch that
  returned a history that is not empty.
\<close>

theorem get_price_history_partition:
  assumes "get_price_history fetch tickers p = (df, missing, out)"
  shows "(\<forall>i<length tickers. fetch_fails (fetch i (tickers ! i) p) \<longrightarrow> tickers ! i \<in> set missing)
     \<and> (\<forall>t\<in>set missing. \<exists>i<length tickers. tickers ! i = t \<and> fetch_fails (fetch i t p))
     \<and> (\<forall>t\<in>set tickers.
           t \<in> fst ` set (frame_columns df) \<or> t \<in> set missing \<or>
           (\<exists>i<length tickers. tickers ! i = t \<and> (\<exists>h. fetch i t p = Returns h \<and> only_nan h)))
     \<and> (\<forall>(t, c)\<in>set (frame_columns df).
           list_ex (\<lambda>v. \<not> isnan v) c \<and>
           (\<exists>i<length tickers. tickers ! i = t \<and> (\<exists>h. fetch i t p = Returns h \<and> h \<noteq> [])))"
proof -
  obtain ph where loop: "get_price_history_loop fetch p 0 tickers ([], [], []) = (ph, missing, out)"
    and df: "df = dropna_columns_all (DataFrame ph)"
    using assms by (auto simp: get_price_history_def split: prod.splits)
  have entries: "\<And>t h. (t, h) \<in> set ph \<Longrightarrow>
      h \<noteq> [] \<and> (\<exists>i<length tickers. tickers ! i = t \<and> fetch i t p = Returns h)"
    using loop_entries [OF loop] by simp
  have a: "\<forall>i<length tickers. fetch_fails (fetch i (tickers ! i) p) \<longrightarrow> tickers ! i \<in> set missing"
    using loop_failing_missing [OF loop] by simp
  have b: "\<forall>t\<in>set missing. \<exists>i<length tickers. tickers ! i = t \<and> fetch_fails (fetch i t p)"
    using loop_missing_failed [OF loop] by simp
  have c: "\<forall>t\<in>set tickers.
           t \<in> fst ` set (frame_columns df) \<or> t \<in> set missing \<or>
           (\<exists>i<length tickers. tickers ! i = t \<and> (\<exists>h. fetch i t p = Returns h \<and> only_nan h))"
  proof
    fix t assume t: "t \<in> set tickers"
    show "t \<in> fst ` set (frame_columns df) \<or> t \<in> set missing \<or>
           (\<exists>i<length tickers. tickers ! i = t \<and> (\<exists>h. fetch i t p = Returns h \<and> only_nan h))"
    proof (cases "t \<in> fst ` set (frame_columns df) \<or> t \<in> set missing")
      case True
      then show ?thesis by blast
    next
      case False
      with loop_covers [OF loop t] obtain h where h: "(t, h) \<in> set ph" by auto
      from entries [OF h] obtain i where i: "h \<noteq> []" "i < length tickers" "tickers ! i = t"
        "fetch i t p = Returns h" by blast
      from False df have "t \<notin> fst ` set (frame_columns (dropna_columns_all (DataFrame ph)))"
        by simp
      from dropped_only_nan [OF h i(1) this] i show ?thesis by blast
    qed
  qed
  have d: "\<forall>(t, c)\<in>set (frame_columns df).
           list_ex (\<lambda>v. \<not> isnan v) c \<and>
           (\<exists>i<length tickers. tickers ! i = t \<and> (\<exists>h. fetch i t p = Returns h \<and> h \<noteq> []))"
  proof (clarify, intro conjI)
    fix t c assume tc: "(t, c) \<in> set (frame_columns df)"
    with df kept_column_valid [of t c "DataFrame ph"]
    have v: "list_ex (\<lambda>v. \<not> isnan v) c" and inF: "(t, c) \<in> set (frame_columns (DataFrame ph))"
      by simp_all
    show "list_ex (\<lambda>v. \<not> isnan v) c" by (rule v)
    from DataFrame_columns_from [OF inF] obtain h where "(t, h) \<in> set ph" by blast
    from entries [OF this]
    show "\<exists>i<length tickers. tickers ! i = t \<and> (\<exists>h. fetch i t p = Returns h \<and> h \<noteq> [])"
      by blast
  qed
  from a b c d show ?thesis by blast
qed

text \<open>
  The claim as stated fails: a ticker whose history holds only NaN is neither a column of
  the returned frame nor in the missing list.
\<close>

theorem get_price_history_unreported:
  "get_price_history (\<lambda>k t p. Returns [(0, NaN), (1, NaN)]) [''XYZ''] ''252d'' =
     (\<lparr>frame_index = [0, 1], frame_columns = []\<rparr>, [], [])"
  by (simp add: get_price_history_def DataFrame_def dropna_columns_all_def)

theorem get_price_history_partition_witness:
  "get_price_history
     (\<lambda>k t p. if t = ''AAA'' then Returns [(0, Fin 10), (1, Fin 11)]
               else if t = ''BBB'' then Returns [(0, NaN)]
               else if t = ''CCC'' then Raises ''404'' else Returns [])
     [''AAA'', ''BBB'', ''CCC'', ''DDD''] ''252d'' =
     (\<lparr>frame_index = [0, 1], frame_columns = [(''AAA'', [Fin 10, Fin 11])]\<rparr>,
      [''CCC'', ''DDD''], [''Erreur pour CCC: 404''])
   \<and> only_nan [(0, NaN)]
   \<and> list_all (\<lambda>t. t = ''AAA'' \<or> t \<in> set [''CCC'', ''DDD''] \<or> t = ''BBB'')
        [''AAA'', ''BBB'', ''CCC'', ''DDD'']"
proof -
  let ?fetch = "\<lambda>(k::nat) (t::ticker) (p::string). if t = ''AAA'' then Returns [(0, Fin 10), (1, Fin 11)]
               else if t = ''BBB'' then Returns [(0, NaN)]
               else if t = ''CCC'' then Raises ''404'' else Returns []"
  have g: "get_price_history ?fetch [''AAA'', ''BBB'', ''CCC'', ''DDD''] ''252d'' =
     (\<lparr>frame_index = [0, 1], frame_columns = [(''AAA'', [Fin 10, Fin 11])]\<rparr>,
      [''CCC'', ''DDD''], [''Erreur pour CCC: 404''])"
    by (simp add: get_price_history_def DataFrame_def dropna_columns_all_def)
  have n: "only_nan [(0, NaN)]" by (simp add: only_nan_def)
  from get_price_history_partition [OF g]
  have "\<forall>t\<in>set [''AAA'', ''BBB'', ''CCC'', ''DDD''].
           t \<in> fst ` set (frame_columns \<lparr>frame_index = [0, 1], frame_columns = [(''AAA'', [Fin 10, Fin 11])]\<rparr>)
           \<or> t \<in> set [''CCC'', ''DDD''] \<or>
           (\<exists>i<length [''AAA'', ''BBB'', ''CCC'', ''DDD'']. [''AAA'', ''BBB'', ''CCC'', ''DDD''] ! i = t \<and>
              (\<exists>h. ?fetch i t ''252d'' = Returns h \<and> only_nan h))"
    by blast
  then have "list_all (\<lambda>t. t = ''AAA'' \<or> t \<in> set [''CCC'', ''DDD''] \<or> t = ''BBB'')
        [''AAA'', ''BBB'', ''CCC'', ''DDD'']"
    by simp
  with g n show ?thesis by blast
qed

subsection \<open>Arithmetic of the number model\<close>

lemma f_mul_commute: "f_mul a b = f_mul b a"
  by (cases a; cases b) (simp_all add: mult.commute)

lemma f_add_zero_left: "f_add (Fin 0) a = a"
  by (cases a) simp_all

lemma foldl_f_add_Fin: "foldl f_add (Fin a) (map Fin xs) = Fin (a + sum_list xs)"
  by (induction xs arbitrary: a) (simp_all add: add.assoc)

lemma filter_notnan_Fin: "filter (\<lambda>x. \<not> isnan x) (map Fin xs) = map Fin xs"
  by (induction xs) simp_all

lemma nansum_Fin: "nansum (map Fin xs) = Fin (sum_list xs)"
  by (simp add: nansum_def filter_notnan_Fin foldl_f_add_Fin)

lemma series_mul_same_index:
  assumes "length ts = length xs" "length ts = length ys"
  shows "map snd (series_mul (zip ts xs) (zip ts ys)) = map2 f_mul xs ys"
proof -
  from assms have "map fst (zip ts xs) = map fst (zip ts ys)" by simp
  then have "series_mul (zip ts xs) (zip ts ys) =
      map2 (\<lambda>(t, x) (u, y). (t, f_mul x y)) (zip ts xs) (zip ts ys)"
    by (simp add: series_mul_def)
  moreover from assms have "map snd (map2 (\<lambda>(t, x) (u, y). (t, f_mul x y)) (zip ts xs) (zip ts ys))
      = map2 f_mul xs ys"
  proof (induction ts arbitrary: xs ys)
    case Nil
    then show ?case by simp
  next
    case (Cons t ts)
    then obtain x xs' y ys' where "xs = x # xs'" "ys = y # ys'"
      by (metis length_Suc_conv)
    with Cons show ?case by simp
  qed
  ultimately show ?thesis by simp
qed

lemma map2_f_mul_Fin:
  "length xs = length ys \<Longrightarrow> map2 f_mul (map Fin xs) (map Fin ys) = map Fin (map2 (*) xs ys)"
proof (induction xs arbitrary: ys)
  case Nil
  then show ?case by simp
next
  case (Cons x xs)
  then obtain y ys' where "ys = y # ys'" by (metis length_Suc_conv)
  with Cons show ?case by simp
qed

lemma select_columns_labels:
  "select_columns cs ts = Inr sel \<Longrightarrow> map fst sel = ts"
  by (induction ts arbitrary: sel) (auto split: option.splits sum.splits)

lemma calc_volatility_labels: "map fst (calc_volatility cs) = map fst cs"
  by (simp add: calc_volatility_def case_prod_unfold comp_def)

lemma example_volatilities:
  "calc_volatility [(''A'', [Fin (1 / 10), Fin (- 1 / 10)]), (''B'', [Fin (- 1 / 10), Fin (1 / 10)])]
   = [(''A'', Fin (sqrt (1 / 50) * sqrt 252)), (''B'', Fin (sqrt (1 / 50) * sqrt 252))]"
  by (simp add: calc_volatility_def nanstd_def Let_def f_sub_def)

lemma example_portfolio_volatility:
  "f_mul (nanstd (dot [(''A'', [Fin (1 / 10), Fin (- 1 / 10)]), (''B'', [Fin (- 1 / 10), Fin (1 / 10)])]
       [Fin (1 / 2), Fin (1 / 2)] 2)) (f_sqrt (Fin 252)) = Fin 0"
  by (simp add: dot_def nanstd_def Let_def f_sub_def upt_rec numeral_2_eq_2)

lemma example_weighted_volatility:
  "volatilite_ponderee [(''A'', Fin (1 / 2)), (''B'', Fin (1 / 2))]
    [(''A'', Fin (sqrt (1 / 50) * sqrt 252)), (''B'', Fin (sqrt (1 / 50) * sqrt 252))]
   = Fin (sqrt (1 / 50) * sqrt 252)"
  by (simp add: volatilite_ponderee_def series_mul_def nansum_def)

text \<open>
  Claim C3. For a weight vector and the per-asset annualized volatilities over the same
  tickers, all finite, the weighted volatility \<open>(weights * vol_annual).sum()\<close> is the sum of
  weight times volatility. In the dashboard the two Series have the same index: the
  volatilities are computed on \<open>returns[weights.index]\<close>. Weights 0.6 and 0.4 with
  volatilities 10 and 20 percent give 14 percent. It is not the volatility of the weighted
  return series: for two assets with returns \<open>(0.1, -0.1)\<close> and \<open>(-0.1, 0.1)\<close> held half and
  half the weighted return series is constant (volatility 0) and the weighted volatility is
  not 0.
\<close>

theorem weighted_volatility:
  "(length ts = length ws \<and> length ts = length vs \<longrightarrow>
      volatilite_ponderee (zip ts (map Fin ws)) (zip ts (map Fin vs)) =
        Fin (sum_list (map2 (*) ws vs)))
   \<and> (select_columns cs (map fst weights) = Inr selected \<longrightarrow>
        map fst (calc_volatility selected) = map fst weights)
   \<and> volatilite_ponderee [(''A'', Fin (6 / 10)), (''B'', Fin (4 / 10))]
        [(''A'', Fin (10 / 100)), (''B'', Fin (20 / 100))] = Fin (14 / 100)
   \<and> volatilite_ponderee [(''A'', Fin (1 / 2)), (''B'', Fin (1 / 2))]
        (calc_volatility
           [(''A'', [Fin (1 / 10), Fin (- 1 / 10)]), (''B'', [Fin (- 1 / 10), Fin (1 / 10)])])
       \<noteq> f_mul (nanstd (dot [(''A'', [Fin (1 / 10), Fin (- 1 / 10)]),
                                (''B'', [Fin (- 1 / 10), Fin (1 / 10)])]
                            [Fin (1 / 2), Fin (1 / 2)] 2)) (f_sqrt (Fin 252))"
proof (intro conjI impI)
  assume a: "length ts = length ws \<and> length ts = length vs"
  then have "map snd (series_mul (zip ts (map Fin ws)) (zip ts (map Fin vs)))
      = map2 f_mul (map Fin ws) (map Fin vs)"
    by (simp add: series_mul_same_index)
  also from a have "\<dots> = map Fin (map2 (*) ws vs)" by (simp add: map2_f_mul_Fin)
  finally have e: "map snd (series_mul (zip ts (map Fin ws)) (zip ts (map Fin vs)))
      = map Fin (map2 (*) ws vs)" .
  show "volatilite_ponderee (zip ts (map Fin ws)) (zip ts (map Fin vs)) =
        Fin (sum_list (map2 (*) ws vs))"
    unfolding volatilite_ponderee_def e by (rule nansum_Fin)
next
  assume "select_columns cs (map fst weights) = Inr selected"
  then show "map fst (calc_volatility selected) = map fst weights"
    by (simp add: calc_volatility_labels select_columns_labels)
next
  show "volatilite_ponderee [(''A'', Fin (6 / 10)), (''B'', Fin (4 / 10))]
        [(''A'', Fin (10 / 100)), (''B'', Fin (20 / 100))] = Fin (14 / 100)"
    by (simp add: volatilite_ponderee_def series_mul_def nansum_def)
next
  show "volatilite_ponderee [(''A'', Fin (1 / 2)), (''B'', Fin (1 / 2))]
        (calc_volatility
           [(''A'', [Fin (1 / 10), Fin (- 1 / 10)]), (''B'', [Fin (- 1 / 10), Fin (1 / 10)])])
       \<noteq> f_mul (nanstd (dot [(''A'', [Fin (1 / 10), Fin (- 1 / 10)]),
                                (''B'', [Fin (- 1 / 10), Fin (1 / 10)])]
                            [Fin (1 / 2), Fin (1 / 2)] 2)) (f_sqrt (Fin 252))"
    unfolding example_volatilities example_portfolio_volatility example_weighted_volatility
    by simp
qed

theorem weighted_volatility_witness:
  "volatilite_ponderee (zip [''X'', ''Y'', ''Z''] (map Fin [1 / 2, 1 / 4, 1 / 4]))
       (zip [''X'', ''Y'', ''Z''] (map Fin [2 / 10, 4 / 10, 8 / 10])) = Fin (4 / 10)
   \<and> select_columns [(''Y'', [Fin 1, Fin 2]), (''X'', [Fin 3, Fin 5])] (map fst [(''X'', Fin 1)])
       = Inr [(''X'', [Fin 3, Fin 5])]
   \<and> map fst (calc_volatility [(''X'', [Fin 3, Fin 5])]) = map fst [(''X'', Fin 1)]"
proof -
  have s: "select_columns [(''Y'', [Fin 1, Fin 2]), (''X'', [Fin 3, Fin 5])] (map fst [(''X'', Fin 1)])
       = Inr [(''X'', [Fin 3, Fin 5])]"
    by simp
  have l: "length [''X'', ''Y'', ''Z''] = length [1 / 2, 1 / 4, 1 / (4::real)]
      \<and> length [''X'', ''Y'', ''Z''] = length [2 / 10, 4 / 10, 8 / (10::real)]"
    by simp
  from weighted_volatility [of "[''X'', ''Y'', ''Z'']" "[1 / 2, 1 / 4, 1 / 4]" "[2 / 10, 4 / 10, 8 / 10]"
      "[(''Y'', [Fin 1, Fin 2]), (''X'', [Fin 3, Fin 5])]" "[(''X'', Fin 1)]" "[(''X'', [Fin 3, Fin 5])]"] l s
  have "volatilite_ponderee (zip [''X'', ''Y'', ''Z''] (map Fin [1 / 2, 1 / 4, 1 / 4]))
       (zip [''X'', ''Y'', ''Z''] (map Fin [2 / 10, 4 / 10, 8 / 10])) =
        Fin (sum_list (map2 (*) [1 / 2, 1 / 4, 1 / 4] [2 / 10, 4 / 10, 8 / 10]))"
    and "map fst (calc_volatility [(''X'', [Fin 3, Fin 5])]) = map fst [(''X'', Fin 1)]"
    by blast+
  with s show ?thesis by simp
qed

subsection \<open>Weights\<close>

lemma nansum_values:
  "list_all value_ok vs \<Longrightarrow>
   foldl f_add (Fin a) (filter (\<lambda>x. \<not> isnan x) vs)
     = Fin (a + sum_list (map (\<lambda>v. case v of Fin x \<Rightarrow> x | _ \<Rightarrow> 0) vs))"
proof (induction vs arbitrary: a)
  case Nil
  show ?case by simp
next
  case (Cons v vs)
  then show ?case
    by (cases v) (simp_all add: value_ok_def has_value_def add.assoc)
qed

lemma nansum_weights:
  "list_all value_ok vs \<Longrightarrow> 0 < c \<Longrightarrow>
   foldl f_add (Fin a) (filter (\<lambda>x. \<not> isnan x) (map (\<lambda>v. f_div v (Fin c)) vs))
     = Fin (a + sum_list (map (\<lambda>v. case v of Fin x \<Rightarrow> x | _ \<Rightarrow> 0) vs) / c)"
proof (induction vs arbitrary: a)
  case Nil
  show ?case by simp
next
  case (Cons v vs)
  then show ?case
    by (cases v) (simp_all add: value_ok_def has_value_def add.assoc add_divide_distrib)
qed

lemma values_nonneg:
  "list_all value_ok vs \<Longrightarrow> 0 \<le> sum_list (map (\<lambda>v. case v of Fin x \<Rightarrow> x | _ \<Rightarrow> 0) vs)"
proof (induction vs)
  case Nil
  show ?case by simp
next
  case (Cons v vs)
  then show ?case
    by (cases v) (simp_all add: value_ok_def has_value_def)
qed

lemma values_pos:
  "list_all value_ok vs \<Longrightarrow> list_ex has_value vs \<Longrightarrow>
   0 < sum_list (map (\<lambda>v. case v of Fin x \<Rightarrow> x | _ \<Rightarrow> 0) vs)"
proof (induction vs)
  case Nil
  then show ?case by simp
next
  case (Cons v vs)
  from Cons.prems have ok: "list_all value_ok vs" by simp
  show ?case
  proof (cases "has_value v")
    case True
    then obtain x where "v = Fin x" "0 < x" by (cases v) (simp_all add: has_value_def)
    with values_nonneg [OF ok] show ?thesis by simp
  next
    case False
    with Cons.prems have "list_ex has_value vs" by simp
    from Cons.IH [OF ok this] Cons.prems(1) False show ?thesis
      by (cases v) (simp_all add: value_ok_def has_value_def)
  qed
qed

lemma weights_sum_one:
  assumes "list_all value_ok vs" "list_ex has_value vs"
  shows "nansum (map (\<lambda>v. f_div v (nansum vs)) vs) = Fin 1"
proof -
  let ?S = "sum_list (map (\<lambda>v. case v of Fin x \<Rightarrow> x | _ \<Rightarrow> 0) vs)"
  have pos: "0 < ?S" using values_pos [OF assms] .
  have total: "nansum vs = Fin ?S"
    using nansum_values [OF assms(1), of 0] by (simp add: nansum_def)
  have "nansum (map (\<lambda>v. f_div v (nansum vs)) vs) = nansum (map (\<lambda>v. f_div v (Fin ?S)) vs)"
    by (simp only: total)
  also from nansum_weights [OF assms(1) pos, of 0] pos have "\<dots> = Fin 1"
    unfolding nansum_def by simp
  finally show ?thesis .
qed

lemma pct_change_columns: "map fst (frame_columns (pct_change f)) = map fst (frame_columns f)"
  by (simp add: pct_change_def case_prod_unfold comp_def)

lemma dropna_rows_columns: "map fst (frame_columns (dropna_rows f)) = map fst (frame_columns f)"
  by (simp add: dropna_rows_def Let_def case_prod_unfold comp_def)

lemma returns_columns:
  "map fst (frame_columns (dropna_rows (pct_change f))) = map fst (frame_columns f)"
  by (simp add: dropna_rows_columns pct_change_columns)

lemma portfolio_weights_values:
  "map snd (portfolio_weights df_valid)
     = map (\<lambda>v. f_div v (nansum (map snd df_valid))) (map snd df_valid)"
  by (simp add: portfolio_weights_def Let_def case_prod_unfold comp_def)

lemma portfolio_weights_labels: "map fst (portfolio_weights df_valid) = map fst df_valid"
  by (simp add: portfolio_weights_def Let_def case_prod_unfold comp_def)

text \<open>
  Claim C4. Take a portfolio whose values are, as in the data model, positive numbers or NaN
  (no current price), and in which at least one ticker has a positive value and a column in
  the price frame. The weights are the values of the tickers that have a column in the price
  frame, each divided by the sum of those values (NaN skipped). Their sum (NaN skipped, as
  pandas sums) is exactly 1 in exact arithmetic, hence within \<open>1e-9\<close> of 1, and the weight
  vector holds exactly the portfolio's tickers that have a column in the price frame, in
  order: a ticker without price history has no weight.
\<close>

theorem weights_sum_to_one:
  assumes "list_all (\<lambda>(t, v). value_ok v) df_portfolio"
    and "list_ex (\<lambda>(t, v). t \<in> fst ` set (frame_columns price_df) \<and> has_value v) df_portfolio"
  shows "nansum (map snd (portfolio_weights
             (valid_rows df_portfolio (dropna_rows (pct_change price_df))))) = Fin 1
     \<and> (\<exists>s. nansum (map snd (portfolio_weights
             (valid_rows df_portfolio (dropna_rows (pct_change price_df))))) = Fin s
            \<and> \<bar>s - 1\<bar> \<le> 1 / 10 ^ 9)
     \<and> map fst (portfolio_weights (valid_rows df_portfolio (dropna_rows (pct_change price_df))))
         = filter (\<lambda>t. t \<in> fst ` set (frame_columns price_df)) (map fst df_portfolio)"
proof -
  let ?returns = "dropna_rows (pct_change price_df)"
  let ?valid = "valid_rows df_portfolio ?returns"
  have cols: "set (map fst (frame_columns ?returns)) = fst ` set (frame_columns price_df)"
    by (simp only: returns_columns set_map)
  have valid: "?valid = filter (\<lambda>(t, v). t \<in> fst ` set (frame_columns price_df)) df_portfolio"
    unfolding valid_rows_def using cols by simp
  from assms(1) have ok: "list_all value_ok (map snd ?valid)"
    unfolding valid by (induction df_portfolio) auto
  from assms(2) have ex: "list_ex has_value (map snd ?valid)"
    unfolding valid by (induction df_portfolio) auto
  have one: "nansum (map snd (portfolio_weights ?valid)) = Fin 1"
    unfolding portfolio_weights_values by (rule weights_sum_one [OF ok ex])
  have labels: "map fst (portfolio_weights ?valid)
      = filter (\<lambda>t. t \<in> fst ` set (frame_columns price_df)) (map fst df_portfolio)"
    unfolding portfolio_weights_labels valid
    by (simp add: filter_map comp_def case_prod_unfold)
  from one labels show ?thesis by simp
qed

theorem weights_sum_to_one_witness:
  "list_all (\<lambda>(t, v). value_ok v)
     [(''A'', Fin 600), (''B'', NaN), (''C'', Fin 400), (''D'', Fin 50)]
   \<and> list_ex (\<lambda>(t, v). t \<in> fst ` set (frame_columns
          \<lparr>frame_index = [0, 1],
           frame_columns = [(''A'', [Fin 10, Fin 11]), (''B'', [Fin 5, Fin 6]),
                            (''C'', [Fin 1, Fin 2])]\<rparr>) \<and> has_value v)
     [(''A'', Fin 600), (''B'', NaN), (''C'', Fin 400), (''D'', Fin 50)]
   \<and> nansum (map snd (portfolio_weights
        (valid_rows [(''A'', Fin 600), (''B'', NaN), (''C'', Fin 400), (''D'', Fin 50)]
           (dropna_rows (pct_change
              \<lparr>frame_index = [0, 1],
               frame_columns = [(''A'', [Fin 10, Fin 11]), (''B'', [Fin 5, Fin 6]),
                                (''C'', [Fin 1, Fin 2])]\<rparr>))))) = Fin 1
   \<and> map fst (portfolio_weights
        (valid_rows [(''A'', Fin 600), (''B'', NaN), (''C'', Fin 400), (''D'', Fin 50)]
           (dropna_rows (pct_change
              \<lparr>frame_index = [0, 1],
               frame_columns = [(''A'', [Fin 10, Fin 11]), (''B'', [Fin 5, Fin 6]),
                                (''C'', [Fin 1, Fin 2])]\<rparr>)))) = [''A'', ''B'', ''C'']"
proof -
  let ?df = "[(''A'', Fin 600), (''B'', NaN), (''C'', Fin 400), (''D'', Fin 50)]"
  let ?pf = "\<lparr>frame_index = [0, 1],
           frame_columns = [(''A'', [Fin 10, Fin 11]), (''B'', [Fin 5, Fin 6]),
                            (''C'', [Fin 1, Fin 2])]\<rparr>"
  have a: "list_all (\<lambda>(t, v). value_ok v) ?df"
    by (simp add: value_ok_def has_value_def)
  have b: "list_ex (\<lambda>(t, v). t \<in> fst ` set (frame_columns ?pf) \<and> has_value v) ?df"
    by (simp add: has_value_def)
  from weights_sum_to_one [OF a b] a b show ?thesis
    by simp
qed

subsection \<open>Value at risk\<close>

lemma select_columns_total:
  "set ts \<subseteq> fst ` set cs \<Longrightarrow> \<exists>sel. select_columns cs ts = Inr sel"
proof (induction ts)
  case Nil
  show ?case by simp
next
  case (Cons t ts)
  then obtain sel where sel: "select_columns cs ts = Inr sel" by auto
  from Cons.prems have "t \<in> fst ` set cs" by simp
  then obtain c where "map_of cs t = Some c"
    by (metis (no_types, lifting) image_iff map_of_eq_None_iff not_Some_eq)
  with sel show ?case by simp
qed

lemma dot_row_spec:
  "select_columns (frame_columns returns) (map fst weights) = Inr sel \<Longrightarrow>
   map2 (\<lambda>(t, c) wi. f_mul (c ! k) wi) sel (map snd weights)
     = map (\<lambda>(t, w). f_mul w (return_of returns t k)) weights"
proof (induction weights arbitrary: sel)
  case Nil
  then show ?case by simp
next
  case (Cons tw weights)
  obtain t w where tw: "tw = (t, w)" by (cases tw)
  from Cons.prems tw obtain c rest where c: "map_of (frame_columns returns) t = Some c"
    and rest: "select_columns (frame_columns returns) (map fst weights) = Inr rest"
    and sel: "sel = (t, c) # rest"
    by (auto split: option.splits sum.splits)
  from Cons.IH [OF rest] c tw sel show ?case
    by (simp add: return_of_def f_mul_commute)
qed

lemma dot_is_weighted_series:
  assumes "select_columns (frame_columns returns) (map fst weights) = Inr sel"
  shows "dot sel (map snd weights) (length (frame_index returns))
           = weighted_return_series_spec returns weights"
  unfolding dot_def weighted_return_series_spec_def
  by (simp only: dot_row_spec [OF assms])

text \<open>
  Claim C2. For a return frame and a weight vector whose tickers are columns of the frame,
  \<open>compute_portfolio_var\<close> at confidence \<open>c\<close> is the negation of the \<open>(1 - c) * 100\<close>-th
  percentile of the weighted return series of the specification (per date, the sum over the
  tickers of weight times return); an exception of \<open>np.percentile\<close> passes through. At the
  dashboard's confidence levels 0.95 and 0.99 these are the 5th and the 1st percentile.
\<close>

theorem portfolio_var_is_percentile:
  assumes "set (map fst weights) \<subseteq> fst ` set (frame_columns returns)"
  shows "compute_portfolio_var returns weights confidence =
           (case percentile (weighted_return_series_spec returns weights) ((1 - confidence) * 100) of
              Inl e \<Rightarrow> Inl e
            | Inr p \<Rightarrow> Inr (f_neg p))
     \<and> compute_portfolio_var returns weights (95 / 100) =
           (case percentile (weighted_return_series_spec returns weights) 5 of
              Inl e \<Rightarrow> Inl e
            | Inr p \<Rightarrow> Inr (f_neg p))
     \<and> compute_portfolio_var returns weights (99 / 100) =
           (case percentile (weighted_return_series_spec returns weights) 1 of
              Inl e \<Rightarrow> Inl e
            | Inr p \<Rightarrow> Inr (f_neg p))"
proof -
  from select_columns_total [OF assms] obtain sel
    where sel: "select_columns (frame_columns returns) (map fst weights) = Inr sel" by blast
  have gen: "\<And>c. compute_portfolio_var returns weights c =
           (case percentile (weighted_return_series_spec returns weights) ((1 - c) * 100) of
              Inl e \<Rightarrow> Inl e
            | Inr p \<Rightarrow> Inr (f_neg p))"
    by (simp add: compute_portfolio_var_def sel calc_var_def dot_is_weighted_series [OF sel])
  have q5: "(1 - 95 / 100) * 100 = (5::real)" by simp
  have q1: "(1 - 99 / 100) * 100 = (1::real)" by simp
  from gen [of confidence] gen [of "95 / 100"] gen [of "99 / 100"] show ?thesis
    unfolding q5 q1 by blast
qed

theorem portfolio_var_is_percentile_witness:
  "set (map fst [(''A'', Fin (1 / 2)), (''B'', Fin (1 / 2))])
     \<subseteq> fst ` set (frame_columns
          \<lparr>frame_index = [1, 2, 3],
           frame_columns = [(''B'', [Fin (2 / 100), Fin (- 4 / 100), Fin 0]),
                            (''A'', [Fin (4 / 100), Fin (- 2 / 100), Fin (2 / 100)])]\<rparr>)
   \<and> weighted_return_series_spec
        \<lparr>frame_index = [1, 2, 3],
         frame_columns = [(''B'', [Fin (2 / 100), Fin (- 4 / 100), Fin 0]),
                          (''A'', [Fin (4 / 100), Fin (- 2 / 100), Fin (2 / 100)])]\<rparr>
        [(''A'', Fin (1 / 2)), (''B'', Fin (1 / 2))]
      = [Fin (3 / 100), Fin (- 3 / 100), Fin (1 / 100)]
   \<and> compute_portfolio_var
        \<lparr>frame_index = [1, 2, 3],
         frame_columns = [(''B'', [Fin (2 / 100), Fin (- 4 / 100), Fin 0]),
                          (''A'', [Fin (4 / 100), Fin (- 2 / 100), Fin (2 / 100)])]\<rparr>
        [(''A'', Fin (1 / 2)), (''B'', Fin (1 / 2))] (95 / 100)
      = (case percentile [Fin (3 / 100), Fin (- 3 / 100), Fin (1 / 100)] 5 of
           Inl e \<Rightarrow> Inl e | Inr p \<Rightarrow> Inr (f_neg p))"
proof -
  let ?r = "\<lparr>frame_index = [1, 2, 3],
         frame_columns = [(''B'', [Fin (2 / 100), Fin (- 4 / 100), Fin 0]),
                          (''A'', [Fin (4 / 100), Fin (- 2 / 100), Fin (2 / 100)])]\<rparr>"
  let ?w = "[(''A'', Fin (1 / 2)), (''B'', Fin (1 / 2))]"
  have a: "set (map fst ?w) \<subseteq> fst ` set (frame_columns ?r)" by simp
  have s: "weighted_return_series_spec ?r ?w = [Fin (3 / 100), Fin (- 3 / 100), Fin (1 / 100)]"
    by (simp add: weighted_return_series_spec_def return_of_def upt_rec)
  from portfolio_var_is_percentile [OF a, of "95 / 100"] a s show ?thesis
    by simp
qed

subsection \<open>Percentiles of finite series\<close>

lemma insort_key_Fin:
  "insort_key f_key (Fin x) (map Fin ys) = map Fin (insort x ys)"
  by (induction ys) simp_all

lemma np_sort_Fin: "np_sort (map Fin xs) = map Fin (sort xs)"
  unfolding np_sort_def
  by (induction xs) (simp_all add: insort_key_Fin)

lemma lerp_Fin: "lerp (Fin a) (Fin b) t = Fin (a + (b - a) * t)"
  by (simp add: lerp_def f_sub_def Let_def algebra_simps)

lemma nat_floor_le: "0 \<le> (h::real) \<Longrightarrow> real (nat \<lfloor>h\<rfloor>) \<le> h"
  by linarith

lemma percentile_sorted:
  assumes q: "0 \<le> q" "q \<le> 100" and ne: "s \<noteq> []"
    and srt: "np_sort a = map Fin s" and a: "a \<noteq> []"
    and h: "real (length s - 1) * (q / 100) = h"
  shows "percentile a q = Inr (Fin (interpolate s h))"
proof -
  have c1: "(q < 0 \<or> 100 < q) = False" using q by simp
  have c2: "(a = []) = False" using a by simp
  have notnan: "isnan (last (map Fin s)) = False" using ne by (simp add: last_map)
  have "0 \<le> real (length s - 1) * (q / 100)" using q(1) by simp
  then have h0: "0 \<le> h" unfolding h .
  have unf: "percentile a q =
      Inr (lerp (map Fin s ! (if real (length s - 1) \<le> h then length s - 1 else nat \<lfloor>h\<rfloor>))
                (map Fin s ! (if real (length s - 1) \<le> h then length s - 1
                              else (if real (length s - 1) \<le> h then length s - 1 else nat \<lfloor>h\<rfloor>) + 1))
                (if real (length s - 1) \<le> h then h + 1
                 else h - real (if real (length s - 1) \<le> h then length s - 1 else nat \<lfloor>h\<rfloor>)))"
    unfolding percentile_def Let_def srt length_map h c1 c2 notnan if_False ..
  show ?thesis
  proof (cases "real (length s - 1) \<le> h")
    case True
    have "length s - 1 < length s" using ne by simp
    then have "map Fin s ! (length s - 1) = Fin (s ! (length s - 1))" by (rule nth_map)
    with True show ?thesis
      unfolding unf by (simp add: lerp_Fin interpolate_def)
  next
    case False
    then have lt: "h < real (length s - 1)" by (simp only: not_le)
    have fl: "real (nat \<lfloor>h\<rfloor>) \<le> h" by (rule nat_floor_le [OF h0])
    have "nat \<lfloor>h\<rfloor> < length s - 1"
      using lt fl by linarith
    then have i1: "nat \<lfloor>h\<rfloor> < length s" and i2: "nat \<lfloor>h\<rfloor> + 1 < length s"
      by linarith+
    have n1: "map Fin s ! nat \<lfloor>h\<rfloor> = Fin (s ! nat \<lfloor>h\<rfloor>)"
      using i1 by (rule nth_map)
    have n2: "map Fin s ! (nat \<lfloor>h\<rfloor> + 1) = Fin (s ! (nat \<lfloor>h\<rfloor> + 1))"
      using i2 by (rule nth_map)
    have "Inr (lerp (map Fin s ! nat \<lfloor>h\<rfloor>) (map Fin s ! (nat \<lfloor>h\<rfloor> + 1)) (h - real (nat \<lfloor>h\<rfloor>)))
        = (Inr (Fin (interpolate s h)) :: py_error + pyfloat)"
      unfolding n1 n2 lerp_Fin interpolate_def using False by (simp add: algebra_simps)
    with False show ?thesis
      unfolding unf by (simp only: if_False)
  qed
qed

lemma percentile_finite:
  assumes "xs \<noteq> []" "0 \<le> q" "q \<le> 100"
  shows "percentile (map Fin xs) q
           = Inr (Fin (interpolate (sort xs) (real (length xs - 1) * (q / 100))))"
proof -
  have ne: "sort xs \<noteq> []" using assms(1) by (metis length_0_conv length_sort)
  have a: "map Fin xs \<noteq> []" using assms(1) by simp
  have h: "real (length (sort xs) - 1) * (q / 100) = real (length xs - 1) * (q / 100)"
    by (simp only: length_sort)
  show ?thesis
    by (rule percentile_sorted [OF assms(2) assms(3) ne np_sort_Fin a h])
qed

lemma interpolate_bounds:
  assumes "sorted s" "0 \<le> h" "h < real (length s - 1)"
  shows "s ! nat \<lfloor>h\<rfloor> \<le> interpolate s h" "interpolate s h \<le> s ! (nat \<lfloor>h\<rfloor> + 1)"
proof -
  let ?j = "nat \<lfloor>h\<rfloor>"
  have fl: "real ?j \<le> h" "h < real ?j + 1"
    using assms(2) by linarith+
  then have "?j < length s - 1" using assms(3) by linarith
  then have j: "?j + 1 < length s" by simp
  then have le: "s ! ?j \<le> s ! (?j + 1)"
    using assms(1) by (simp add: sorted_iff_nth_mono)
  have g0: "0 \<le> h - real ?j" and g1: "h - real ?j \<le> 1" using fl by linarith+
  have val: "interpolate s h = s ! ?j + (h - real ?j) * (s ! (?j + 1) - s ! ?j)"
    using assms(3) by (simp add: interpolate_def)
  from le g0 show "s ! ?j \<le> interpolate s h"
    unfolding val by (simp add: mult_nonneg_nonneg)
  from le g1 have "(h - real ?j) * (s ! (?j + 1) - s ! ?j) \<le> 1 * (s ! (?j + 1) - s ! ?j)"
    by (intro mult_right_mono) simp_all
  then show "interpolate s h \<le> s ! (?j + 1)"
    unfolding val by simp
qed

lemma interpolate_mono:
  assumes "sorted s" "s \<noteq> []" "0 \<le> h1" "h1 \<le> h2"
  shows "interpolate s h1 \<le> interpolate s h2"
proof (cases "real (length s - 1) \<le> h2")
  case True
  then have v2: "interpolate s h2 = s ! (length s - 1)" by (simp add: interpolate_def)
  show ?thesis
  proof (cases "real (length s - 1) \<le> h1")
    case True
    then show ?thesis using v2 by (simp add: interpolate_def)
  next
    case False
    then have lt: "h1 < real (length s - 1)" by simp
    have fl: "real (nat \<lfloor>h1\<rfloor>) \<le> h1" using assms(3) by simp
    then have "nat \<lfloor>h1\<rfloor> < length s - 1" using lt by linarith
    then have "nat \<lfloor>h1\<rfloor> + 1 \<le> length s - 1" "length s - 1 < length s"
      using assms(2) by simp_all
    then have "s ! (nat \<lfloor>h1\<rfloor> + 1) \<le> s ! (length s - 1)"
      using assms(1) by (simp add: sorted_iff_nth_mono)
    with interpolate_bounds(2) [OF assms(1) assms(3) lt] v2 show ?thesis by simp
  qed
next
  case False
  then have lt2: "h2 < real (length s - 1)" by simp
  with assms(4) have lt1: "h1 < real (length s - 1)" by simp
  from assms(3,4) have h2: "0 \<le> h2" by simp
  let ?j1 = "nat \<lfloor>h1\<rfloor>" and ?j2 = "nat \<lfloor>h2\<rfloor>"
  have fl2: "real ?j2 \<le> h2" using h2 by simp
  then have j2: "?j2 < length s - 1" using lt2 by linarith
  have j12: "?j1 \<le> ?j2" using assms(4) by (simp add: floor_mono nat_mono)
  show ?thesis
  proof (cases "?j1 = ?j2")
    case True
    have v1: "interpolate s h1 = s ! ?j1 + (h1 - real ?j1) * (s ! (?j1 + 1) - s ! ?j1)"
      using lt1 by (simp add: interpolate_def)
    have v2: "interpolate s h2 = s ! ?j1 + (h2 - real ?j1) * (s ! (?j1 + 1) - s ! ?j1)"
      using lt2 True by (simp add: interpolate_def)
    have "?j1 + 1 < length s" using j2 True by simp
    then have le: "s ! ?j1 \<le> s ! (?j1 + 1)"
      using assms(1) by (simp add: sorted_iff_nth_mono)
    from assms(4) have "h1 - real ?j1 \<le> h2 - real ?j1" by simp
    with le have "(h1 - real ?j1) * (s ! (?j1 + 1) - s ! ?j1)
        \<le> (h2 - real ?j1) * (s ! (?j1 + 1) - s ! ?j1)"
      by (intro mult_right_mono) simp_all
    then show ?thesis unfolding v1 v2 by simp
  next
    case False
    with j12 have "?j1 + 1 \<le> ?j2" by simp
    moreover have "?j2 < length s" using j2 by simp
    ultimately have "s ! (?j1 + 1) \<le> s ! ?j2"
      using assms(1) by (simp add: sorted_iff_nth_mono)
    with interpolate_bounds(2) [OF assms(1) assms(3) lt1]
      interpolate_bounds(1) [OF assms(1) h2 lt2]
    show ?thesis by simp
  qed
qed

text \<open>
  Claim C5. For every return series that is not empty and holds only finite numbers, the
  VaR at confidence 0.99 and the VaR at confidence 0.95 are both finite numbers, and the
  first is at least the second: the 1st percentile is at most the 5th.
\<close>

theorem var_99_ge_var_95:
  assumes "xs \<noteq> []"
  shows "\<exists>v99 v95. calc_var (map Fin xs) (99 / 100) = Inr (Fin v99)
           \<and> calc_var (map Fin xs) (95 / 100) = Inr (Fin v95)
           \<and> v95 \<le> v99"
proof -
  let ?s = "sort xs"
  let ?n = "length xs"
  have q1: "(1 - 99 / 100) * 100 = (1::real)" and q5: "(1 - 95 / 100) * 100 = (5::real)"
    by simp_all
  have p1: "percentile (map Fin xs) 1 = Inr (Fin (interpolate ?s (real (?n - 1) * (1 / 100))))"
    by (rule percentile_finite [OF assms]) simp_all
  have p5: "percentile (map Fin xs) 5 = Inr (Fin (interpolate ?s (real (?n - 1) * (5 / 100))))"
    by (rule percentile_finite [OF assms]) simp_all
  have ne: "?s \<noteq> []" using assms by (metis length_0_conv length_sort)
  have "interpolate ?s (real (?n - 1) * (1 / 100)) \<le> interpolate ?s (real (?n - 1) * (5 / 100))"
    by (rule interpolate_mono [OF sorted_sort ne]) simp_all
  then show ?thesis
    by (simp add: calc_var_def q1 q5 p1 p5)
qed

theorem var_99_ge_var_95_witness:
  "[- 3 / 100, 1 / 100, 2 / 100, - 1 / 100] \<noteq> ([]::real list)
   \<and> calc_var (map Fin [- 3 / 100, 1 / 100, 2 / 100, - 1 / 100]) (99 / 100) = Inr (Fin (294 / 10000))
   \<and> calc_var (map Fin [- 3 / 100, 1 / 100, 2 / 100, - 1 / 100]) (95 / 100) = Inr (Fin (27 / 1000))"
proof -
  have n: "[- 3 / 100, 1 / 100, 2 / 100, - 1 / 100] \<noteq> ([]::real list)" by simp
  from var_99_ge_var_95 [OF n] obtain v99 v95 where
    "calc_var (map Fin [- 3 / 100, 1 / 100, 2 / 100, - 1 / 100]) (99 / 100) = Inr (Fin v99)"
    "calc_var (map Fin [- 3 / 100, 1 / 100, 2 / 100, - 1 / 100]) (95 / 100) = Inr (Fin v95)"
    "v95 \<le> v99" by blast
  moreover have "calc_var (map Fin [- 3 / 100, 1 / 100, 2 / 100, - 1 / 100]) (99 / 100)
      = Inr (Fin (294 / 10000))"
    by (simp add: calc_var_def percentile_def np_sort_def Let_def lerp_def f_sub_def)
  moreover have "calc_var (map Fin [- 3 / 100, 1 / 100, 2 / 100, - 1 / 100]) (95 / 100)
      = Inr (Fin (27 / 1000))"
    by (simp add: calc_var_def percentile_def np_sort_def Let_def lerp_def f_sub_def)
  ultimately show ?thesis using n by simp
qed

subsection \<open>VaR of series with NaN and of empty series\<close>

lemma f_key_NaN_max: "f_key NaN \<le> f_key x \<Longrightarrow> x = NaN"
  by (cases x) (simp_all add: less_eq_prod_def)

lemma last_np_sort_NaN:
  assumes "NaN \<in> set a"
  shows "last (np_sort a) = NaN"
proof -
  let ?s = "sort_key f_key a"
  have ne: "?s \<noteq> []" using assms by (metis empty_iff empty_set set_sort)
  have "NaN \<in> set ?s" using assms by (simp only: set_sort)
  then have "f_key NaN \<in> f_key ` set ?s" by (rule imageI)
  then have "f_key NaN \<in> set (map f_key ?s)" by (simp only: set_map)
  then obtain i where i: "i < length (map f_key ?s)" "map f_key ?s ! i = f_key NaN"
    by (metis in_set_conv_nth)
  have srt: "sorted (map f_key ?s)" by (rule sorted_sort_key)
  have "map f_key ?s ! i \<le> map f_key ?s ! (length (map f_key ?s) - 1)"
    using i(1) by (intro sorted_nth_mono [OF srt]) simp_all
  moreover have "last (map f_key ?s) = map f_key ?s ! (length (map f_key ?s) - 1)"
    using ne by (intro last_conv_nth) simp
  ultimately have "f_key NaN \<le> last (map f_key ?s)"
    by (simp only: i(2))
  then have "f_key NaN \<le> f_key (last ?s)" using ne by (simp add: last_map)
  then show ?thesis unfolding np_sort_def by (rule f_key_NaN_max)
qed

lemma percentile_NaN:
  assumes "0 \<le> q" "q \<le> 100" "NaN \<in> set a"
  shows "percentile a q = Inr NaN"
proof -
  have "a \<noteq> []" using assms(3) by auto
  then show ?thesis
    using assms(1,2) last_np_sort_NaN [OF assms(3)]
    by (simp add: percentile_def Let_def)
qed

lemma percentile_returns:
  assumes "0 \<le> q" "q \<le> 100" "a \<noteq> []"
  shows "\<exists>v. percentile a q = Inr v"
  using assms by (simp add: percentile_def Let_def)

lemma percentile_empty:
  assumes "0 \<le> q" "q \<le> 100"
  shows "percentile [] q = Inl IndexError"
  using assms by (simp add: percentile_def)

lemma confidence_percent:
  assumes "0 \<le> (c::real)" "c \<le> 1"
  shows "0 \<le> (1 - c) * 100" "(1 - c) * 100 \<le> 100"
  using assms by simp_all

lemma f_mul_NaN_right: "f_mul a NaN = NaN"
  by (cases a) simp_all

lemma f_add_NaN_right: "f_add a NaN = NaN"
  by (cases a) simp_all

lemma foldl_f_add_NaN: "foldl f_add NaN xs = NaN"
  by (induction xs) simp_all

lemma foldl_f_add_has_NaN: "NaN \<in> set xs \<Longrightarrow> foldl f_add a xs = NaN"
  by (induction xs arbitrary: a) (auto simp add: f_add_NaN_right foldl_f_add_NaN)

lemma dot_row_NaN:
  assumes "NaN \<in> set w" "length cs = length w"
  shows "NaN \<in> set (map2 (\<lambda>(t, c) wi. f_mul (c ! k) wi) cs w)"
proof -
  from assms(1) obtain i where i: "i < length w" "w ! i = NaN"
    by (auto simp add: in_set_conv_nth)
  with assms(2) have "map2 (\<lambda>(t, c) wi. f_mul (c ! k) wi) cs w ! i = NaN"
    by (simp add: case_prod_unfold f_mul_NaN_right)
  moreover have "i < length (map2 (\<lambda>(t, c) wi. f_mul (c ! k) wi) cs w)"
    using i(1) assms(2) by simp
  ultimately show ?thesis by (metis nth_mem)
qed

lemma dot_NaN:
  assumes "NaN \<in> set w" "length cs = length w" "0 < n"
  shows "NaN \<in> set (dot cs w n)"
proof -
  have "dot cs w n = map (\<lambda>k. NaN) [0..<n]"
    unfolding dot_def
    by (simp add: foldl_f_add_has_NaN [OF dot_row_NaN [OF assms(1,2)]])
  with assms(3) show ?thesis by simp
qed

lemma dot_length: "length (dot cs w n) = n"
  by (simp add: dot_def)

text \<open>
  Claim C7, amended. For a confidence level in \<open>[0, 1]\<close>: a series holding a NaN has the VaR
  NaN, and every series that is not empty has a VaR, without an exception. A zero-length
  series does not give NaN: \<open>np.percentile\<close> raises IndexError, which \<open>calc_var\<close> does not
  catch. For a weight vector whose tickers are columns of the return frame,
  \<open>compute_portfolio_var\<close> raises IndexError when the frame has no row, and otherwise
  returns a value, which is NaN when a weight is NaN.
\<close>

theorem var_nan_propagation:
  assumes "0 \<le> c" "c \<le> 1"
  shows "(NaN \<in> set s \<longrightarrow> calc_var s c = Inr NaN)
       \<and> (s \<noteq> [] \<longrightarrow> (\<exists>v. calc_var s c = Inr v))
       \<and> calc_var [] c = Inl IndexError
       \<and> (set (map fst weights) \<subseteq> fst ` set (frame_columns returns) \<longrightarrow>
            (if frame_index returns = []
             then compute_portfolio_var returns weights c = Inl IndexError
             else (\<exists>v. compute_portfolio_var returns weights c = Inr v)
                  \<and> (NaN \<in> set (map snd weights) \<longrightarrow>
                        compute_portfolio_var returns weights c = Inr NaN)))"
proof -
  note q = confidence_percent [OF assms]
  have nan: "calc_var a c = Inr NaN" if "NaN \<in> set a" for a
    using percentile_NaN [OF q that] by (simp add: calc_var_def)
  have ret: "\<exists>v. calc_var a c = Inr v" if "a \<noteq> []" for a
    using percentile_returns [OF q that] by (auto simp add: calc_var_def)
  have emp: "calc_var [] c = Inl IndexError"
    using percentile_empty [OF q] by (simp add: calc_var_def)
  have pf: "if frame_index returns = []
            then compute_portfolio_var returns weights c = Inl IndexError
            else (\<exists>v. compute_portfolio_var returns weights c = Inr v)
                 \<and> (NaN \<in> set (map snd weights) \<longrightarrow>
                       compute_portfolio_var returns weights c = Inr NaN)"
    if sub: "set (map fst weights) \<subseteq> fst ` set (frame_columns returns)"
  proof -
    from select_columns_total [OF sub] obtain sel
      where sel: "select_columns (frame_columns returns) (map fst weights) = Inr sel" by blast
    have len: "length sel = length (map snd weights)"
      using select_columns_labels [OF sel] by (metis length_map)
    let ?d = "dot sel (map snd weights) (length (frame_index returns))"
    have cpv: "compute_portfolio_var returns weights c = calc_var ?d c"
      by (simp add: compute_portfolio_var_def sel Let_def)
    show ?thesis
    proof (cases "frame_index returns = []")
      case True
      then have "?d = []" by (simp add: dot_def)
      with True emp show ?thesis by (simp add: cpv)
    next
      case False
      then have "?d \<noteq> []" by (metis dot_length length_0_conv)
      from ret [OF this] have r: "\<exists>v. compute_portfolio_var returns weights c = Inr v"
        by (simp add: cpv)
      have "compute_portfolio_var returns weights c = Inr NaN"
        if w: "NaN \<in> set (map snd weights)"
      proof -
        from False have "0 < length (frame_index returns)" by simp
        from nan [OF dot_NaN [OF w len this]] show ?thesis by (simp add: cpv)
      qed
      with r False show ?thesis by simp
    qed
  qed
  from nan ret emp pf show ?thesis by blast
qed

theorem var_nan_propagation_witness:
  "(0::real) \<le> 95 / 100 \<and> (95::real) / 100 \<le> 1
   \<and> NaN \<in> set [Fin (1 / 100), NaN]
   \<and> calc_var [Fin (1 / 100), NaN] (95 / 100) = Inr NaN
   \<and> calc_var [] (95 / 100) = Inl IndexError
   \<and> set (map fst [(''A'', NaN)]) \<subseteq> fst ` set (frame_columns \<lparr>frame_index = [1], frame_columns = [(''A'', [Fin (1 / 100)])]\<rparr>)
   \<and> compute_portfolio_var \<lparr>frame_index = [1], frame_columns = [(''A'', [Fin (1 / 100)])]\<rparr>
         [(''A'', NaN)] (95 / 100) = Inr NaN
   \<and> set (map fst [(''A'', Fin 1)]) \<subseteq> fst ` set (frame_columns \<lparr>frame_index = [], frame_columns = [(''A'', [])]\<rparr>)
   \<and> compute_portfolio_var \<lparr>frame_index = [], frame_columns = [(''A'', [])]\<rparr>
         [(''A'', Fin 1)] (95 / 100) = Inl IndexError"
  using var_nan_propagation [of "95 / 100" "[Fin (1 / 100), NaN]" "[(''A'', NaN)]"
      "\<lparr>frame_index = [1], frame_columns = [(''A'', [Fin (1 / 100)])]\<rparr>"]
    var_nan_propagation [of "95 / 100" "[]" "[(''A'', Fin 1)]"
      "\<lparr>frame_index = [], frame_columns = [(''A'', [])]\<rparr>"]
  by simp

text \<open>
  The claim as stated fails on a zero-length series: \<open>calc_var\<close> raises, and so does the
  dashboard for a ticker whose history holds a single day (its return frame has no row).
\<close>

theorem zero_length_series_raises:
  "calc_var [] (95 / 100) = Inl IndexError
   \<and> show_risk_dashboard (\<lambda>k t p. Returns [(0, Fin 100)]) (\<lambda>k. 0) [(''A'', Fin 1000)]
       = Inl IndexError"
proof -
  have a: "calc_var [] (95 / 100) = Inl IndexError"
    by (simp add: calc_var_def percentile_def)
  have g: "get_price_history (\<lambda>k t p. Returns [(0, Fin 100)]) [''A''] (LOOKBACK_DAYS @ ''d'')
      = (\<lparr>frame_index = [0], frame_columns = [(''A'', [Fin 100])]\<rparr>, [], [])"
    by (simp add: get_price_history_def DataFrame_def dropna_columns_all_def)
  have r: "dropna_rows (pct_change \<lparr>frame_index = [0], frame_columns = [(''A'', [Fin 100])]\<rparr>)
      = \<lparr>frame_index = [], frame_columns = [(''A'', [])]\<rparr>"
    by (simp add: dropna_rows_def pct_change_def pct_change_column_def shift1_def f_sub_def
        row_valid_def keep_rows_def Let_def)
  have b: "show_risk_dashboard (\<lambda>k t p. Returns [(0, Fin 100)]) (\<lambda>k. 0) [(''A'', Fin 1000)]
       = Inl IndexError"
    by (simp add: show_risk_dashboard_def g r frame_empty_def valid_rows_def
        portfolio_weights_def nansum_def compute_portfolio_var_def dot_def calc_var_def
        percentile_def Let_def)
  from a b show ?thesis by simp
qed

subsection \<open>Correlation of columns\<close>

lemma finite_pairs_same: "finite_pairs (map Fin xs) (map Fin xs) = map (\<lambda>x. (x, x)) xs"
  by (induction xs) simp_all

lemma corr_pair_self_unfold:
  assumes "xs \<noteq> []"
  shows "corr_pair (map Fin xs) (map Fin xs) =
     (let m = sum_list xs / real (length xs);
          S = sum_list (map (\<lambda>x. (x - m) * (x - m)) xs)
      in if S \<noteq> 0 then Fin (S / \<bar>S\<bar>) else NaN)"
  using assms
  by (simp add: corr_pair_def finite_pairs_same Let_def comp_def case_prod_unfold)

lemma sum_squares_pos:
  assumes "x \<in> set xs" "x \<noteq> (m::real)"
  shows "0 < sum_list (map (\<lambda>x. (x - m) * (x - m)) xs)"
proof -
  let ?S = "sum_list (map (\<lambda>x. (x - m) * (x - m)) xs)"
  have nonneg: "\<And>v. v \<in> set (map (\<lambda>x. (x - m) * (x - m)) xs) \<Longrightarrow> 0 \<le> v" by auto
  have "?S \<noteq> 0"
  proof
    assume "?S = 0"
    then have "\<forall>v\<in>set (map (\<lambda>x. (x - m) * (x - m)) xs). v = 0"
      using sum_list_nonneg_eq_0_iff [OF nonneg] by blast
    then have "(x - m) * (x - m) = 0" using assms(1) by simp
    with assms(2) show False by simp
  qed
  moreover have "0 \<le> ?S" by (rule sum_list_nonneg [OF nonneg])
  ultimately show ?thesis by simp
qed

lemma sum_list_zeros: "\<forall>v\<in>set vs. v = (0::real) \<Longrightarrow> sum_list vs = 0"
  by (induction vs) simp_all

lemma sum_squares_constant:
  assumes "\<forall>x\<in>set xs. x = (c::real)" "xs \<noteq> []"
  shows "sum_list (map (\<lambda>x. (x - sum_list xs / real (length xs)) * (x - sum_list xs / real (length xs))) xs) = 0"
proof -
  have r: "replicate (length xs) c = xs"
    by (rule replicate_length_same [OF assms(1)])
  have "sum_list xs = real (length xs) * c"
    by (subst r [symmetric]) (simp add: sum_list_replicate)
  then have m: "sum_list xs / real (length xs) = c" using assms(2) by simp
  have "\<forall>v\<in>set (map (\<lambda>x. (x - c) * (x - c)) xs). v = 0" using assms(1) by simp
  then have "sum_list (map (\<lambda>x. (x - c) * (x - c)) xs) = 0"
    by (rule sum_list_zeros)
  then show ?thesis by (simp only: m)
qed

lemma corr_pair_self:
  "corr_pair (map Fin xs) (map Fin xs)
     = (if \<exists>a\<in>set xs. \<exists>b\<in>set xs. a \<noteq> b then Fin 1 else NaN)"
proof (cases "\<exists>a\<in>set xs. \<exists>b\<in>set xs. a \<noteq> b")
  case True
  then have ne: "xs \<noteq> []" by auto
  let ?m = "sum_list xs / real (length xs)"
  from True obtain x where "x \<in> set xs" "x \<noteq> ?m" by metis
  then have "0 < sum_list (map (\<lambda>x. (x - ?m) * (x - ?m)) xs)" by (rule sum_squares_pos)
  with True show ?thesis
    by (simp add: corr_pair_self_unfold [OF ne] Let_def)
next
  case False
  show ?thesis
  proof (cases "xs = []")
    case True
    then show ?thesis by (simp add: corr_pair_def)
  next
    case ne: False
    from False have "\<forall>x\<in>set xs. x = hd xs" using ne by (metis hd_in_set)
    from sum_squares_constant [OF this ne] False show ?thesis
      by (simp add: corr_pair_self_unfold [OF ne] Let_def)
  qed
qed

lemma round2_corr_pair_form:
  "round2 (corr_pair a b) = NaN \<or> (\<exists>k::int. round2 (corr_pair a b) = Fin (real_of_int k / 100))"
  by (auto simp add: corr_pair_def Let_def)

lemma corr_matrix_entry:
  assumes "i < length cs" "j < length cs"
  shows "snd (round2_matrix (corr cs) ! i) ! j
           = round2 (corr_pair (snd (cs ! max i j)) (snd (cs ! min i j)))"
  using assms by (simp add: round2_matrix_def corr_def)

lemma corr_matrix_labels: "map fst (round2_matrix (corr cs)) = map fst cs"
  by (intro nth_equalityI) (simp_all add: round2_matrix_def corr_def)

lemma corr_matrix_row_length:
  "i < length cs \<Longrightarrow> length (snd (round2_matrix (corr cs) ! i)) = length cs"
  by (simp add: round2_matrix_def corr_def)

subsection \<open>Runs of the dashboard\<close>

lemma f_sign_sqrt: "0 \<le> f_sign (f_sqrt a)"
  by (cases a) simp_all

lemma f_sign_mul_Fin:
  "0 \<le> f_sign a \<Longrightarrow> 0 \<le> c \<Longrightarrow> 0 \<le> f_sign (f_mul a (Fin c))"
  by (cases a) (auto simp add: f_inf_def mult_less_0_iff)

lemma f_sign_div_Fin:
  "0 \<le> f_sign a \<Longrightarrow> 0 \<le> c \<Longrightarrow> 0 \<le> f_sign (f_div a (Fin c))"
  by (cases a) (auto simp add: f_inf_def divide_less_0_iff)

lemma f_sign_add:
  "0 \<le> f_sign a \<Longrightarrow> 0 \<le> f_sign b \<Longrightarrow> 0 \<le> f_sign (f_add a b)"
  by (cases a; cases b) (auto split: if_splits)

lemma f_sign_foldl_add:
  "0 \<le> f_sign acc \<Longrightarrow> \<forall>x\<in>set xs. 0 \<le> f_sign x \<Longrightarrow> 0 \<le> f_sign (foldl f_add acc xs)"
  by (induction xs arbitrary: acc) (simp_all add: f_sign_add)

lemma f_sign_nansum:
  "\<forall>x\<in>set xs. 0 \<le> f_sign x \<Longrightarrow> 0 \<le> f_sign (nansum xs)"
  unfolding nansum_def by (rule f_sign_foldl_add) simp_all

lemma f_sign_nanmean:
  "\<forall>x\<in>set xs. 0 \<le> f_sign x \<Longrightarrow> 0 \<le> f_sign (nanmean xs)"
  unfolding nanmean_def by (rule f_sign_div_Fin [OF f_sign_nansum]) simp_all

lemma f_sign_nanstd: "0 \<le> f_sign (nanstd xs)"
  by (simp add: nanstd_def Let_def f_sign_sqrt)

lemma f_sign_calc_volatility:
  "\<forall>v\<in>set (map snd (calc_volatility cs)). 0 \<le> f_sign v"
  by (auto simp add: calc_volatility_def intro!: f_sign_mul_Fin f_sign_nanstd)

lemma dashboard_scale_ok:
  "0 \<le> f_sign (f_div (f_mul (nanmean (map snd (calc_volatility cs))) (Fin 100)) (Fin 100))"
  by (intro f_sign_div_Fin f_sign_mul_Fin f_sign_nanmean f_sign_calc_volatility) simp_all

lemma simulate_years_returns:
  assumes "0 \<le> f_sign (f_div vol (Fin 100))"
  shows "\<exists>v. simulate_years z r vol y k val = Inr (v, k + y)"
proof (induction y arbitrary: k val)
  case 0
  show ?case by simp
next
  case (Suc y)
  let ?val = "f_mul val (f_add (Fin 1) (f_add (f_div r (Fin 100))
                (f_mul (f_div vol (Fin 100)) (Fin (z k)))))"
  from Suc [of "Suc k" ?val] obtain v
    where "simulate_years z r vol y (Suc k) ?val = Inr (v, Suc k + y)" by blast
  with assms show ?case by (simp add: normal_def)
qed

lemma simulate_runs_returns:
  assumes "0 \<le> f_sign (f_div vol (Fin 100))"
  shows "\<exists>vs k'. simulate_runs z V r vol y n k acc = Inr (vs, k') \<and> length vs = length acc + n"
proof (induction n arbitrary: k acc)
  case 0
  show ?case by simp
next
  case (Suc n)
  from simulate_years_returns [OF assms] obtain v
    where v: "simulate_years z r vol y k V = Inr (v, k + y)" by blast
  from Suc [of "k + y" "acc @ [v]"] obtain vs k'
    where "simulate_runs z V r vol y n (k + y) (acc @ [v]) = Inr (vs, k')"
      "length vs = length (acc @ [v]) + n" by blast
  with v show ?case by simp
qed

lemma simulate_horizons_returns:
  assumes "0 \<le> f_sign (f_div vol (Fin 100))"
  shows "\<exists>st. simulate_horizons z V r vol ys k acc = Inr st"
proof (induction ys arbitrary: k acc)
  case Nil
  show ?case by simp
next
  case (Cons y ys)
  from simulate_runs_returns [OF assms] obtain vs k'
    where run: "simulate_runs z V r vol y SIMULATIONS k [] = Inr (vs, k')"
      and len: "length vs = length ([]::pyfloat list) + SIMULATIONS" by blast
  from len have ne: "vs \<noteq> []" by (auto simp add: SIMULATIONS_def)
  from percentile_returns [OF _ _ ne, of 5] obtain p5 where p5: "percentile vs 5 = Inr p5"
    by auto
  from percentile_returns [OF _ _ ne, of 95] obtain p95 where p95: "percentile vs 95 = Inr p95"
    by auto
  from Cons [of k' "acc @ [(y, median vs, p5, p95)]"] show ?case
    by (simp add: run p5 p95)
qed




lemma show_projections_returns:
  assumes "0 \<le> f_sign (f_div vol (Fin 100))"
  shows "\<exists>p. show_projections z V r vol = Inr p"
proof -
  from simulate_horizons_returns [OF assms] obtain st
    where "simulate_horizons z V r vol YEARS 0 [] = Inr st" by blast
  then show ?thesis by (simp add: show_projections_def Let_def)
qed

lemma valid_rows_labels:
  "set (map fst (valid_rows df returns)) \<subseteq> fst ` set (frame_columns returns)"
  by (force simp add: valid_rows_def)

lemma compute_portfolio_var_returns:
  assumes sub: "set (map fst weights) \<subseteq> fst ` set (frame_columns returns)"
    and rows: "frame_index returns \<noteq> []" and c: "0 \<le> c" "c \<le> 1"
  shows "\<exists>v. compute_portfolio_var returns weights c = Inr v"
proof -
  from select_columns_total [OF sub] obtain sel
    where sel: "select_columns (frame_columns returns) (map fst weights) = Inr sel" by blast
  let ?d = "dot sel (map snd weights) (length (frame_index returns))"
  from rows have "?d \<noteq> []" by (metis dot_length length_0_conv)
  from percentile_returns [OF confidence_percent [OF c] this] obtain p
    where "percentile ?d ((1 - c) * 100) = Inr p" by blast
  then show ?thesis
    by (simp add: compute_portfolio_var_def sel Let_def calc_var_def)
qed

lemma dashboard_view:
  assumes "show_risk_dashboard fetch z df = Inr d" "view d = Some v"
    and "get_price_history fetch (map fst df) (LOOKBACK_DAYS @ ''d'') = (price_df, missing, out)"
  shows "distinct (map fst (valid_rows df (dropna_rows (pct_change price_df))))
       \<and> (\<exists>sel. select_columns (frame_columns (dropna_rows (pct_change price_df)))
                   (map fst (portfolio_weights
                      (valid_rows df (dropna_rows (pct_change price_df))))) = Inr sel
               \<and> corr_matrix v = round2_matrix (corr sel)
               \<and> show_projections z
                    (nansum (map snd (valid_rows df (dropna_rows (pct_change price_df)))))
                    (Fin 0) (f_mul (nanmean (map snd (calc_volatility sel))) (Fin 100))
                  = Inr (projection v))"
  using assms unfolding show_risk_dashboard_def
  by (auto simp add: Let_def split: if_splits sum.splits)

lemma dashboard_reaches_projection:
  assumes g: "get_price_history fetch (map fst df) (LOOKBACK_DAYS @ ''d'') = (price_df, missing, out)"
    and ne: "\<not> frame_empty price_df"
    and rows: "frame_index (dropna_rows (pct_change price_df)) \<noteq> []"
  shows "if distinct (map fst (valid_rows df (dropna_rows (pct_change price_df))))
         then \<exists>d v. show_risk_dashboard fetch z df = Inr d \<and> view d = Some v
         else show_risk_dashboard fetch z df = Inl KeyError"
proof -
  let ?returns = "dropna_rows (pct_change price_df)"
  let ?df_valid = "valid_rows df ?returns"
  let ?weights = "portfolio_weights ?df_valid"
  have sub: "set (map fst ?weights) \<subseteq> fst ` set (frame_columns ?returns)"
    by (simp only: portfolio_weights_labels valid_rows_labels)
  from select_columns_total [OF sub] obtain sel
    where sel: "select_columns (frame_columns ?returns) (map fst ?weights) = Inr sel" by blast
  from compute_portfolio_var_returns [OF sub rows, of "95 / 100"] obtain v95
    where v95: "compute_portfolio_var ?returns ?weights (95 / 100) = Inr v95" by auto
  from compute_portfolio_var_returns [OF sub rows, of "99 / 100"] obtain v99
    where v99: "compute_portfolio_var ?returns ?weights (99 / 100) = Inr v99" by auto
  from show_projections_returns [OF dashboard_scale_ok] obtain p
    where p: "show_projections z (nansum (map snd ?df_valid)) (Fin 0)
                (f_mul (nanmean (map snd (calc_volatility sel))) (Fin 100)) = Inr p" by blast
  have v95n: "compute_portfolio_var ?returns ?weights (19 / 20) = Inr v95"
    using v95 by simp
  show ?thesis
    unfolding show_risk_dashboard_def
    by (simp add: g ne sel v95n v99 p Let_def)
qed


subsection \<open>The projection shown by the dashboard\<close>




subsection \<open>The correlation matrix\<close>

text \<open>
  Claim C8, amended. The matrix \<open>returns[weights.index].corr().round(2)\<close> has the labels of
  the selected columns and is square. It is symmetric. Each entry is NaN or a whole number
  of hundredths (it is rounded to 2 decimals). On the diagonal, a column of finite returns
  has 1.0 when it holds two different values, and NaN when it is constant or empty. The
  matrix the dashboard shows in its correlation tab is this matrix for the columns of the
  return frame selected by the tickers of the weight vector.
\<close>

theorem correlation_matrix:
  "map fst (round2_matrix (corr cs)) = map fst cs
   \<and> (\<forall>i<length cs. length (snd (round2_matrix (corr cs) ! i)) = length cs)
   \<and> (\<forall>i<length cs. \<forall>j<length cs.
         snd (round2_matrix (corr cs) ! i) ! j = snd (round2_matrix (corr cs) ! j) ! i)
   \<and> (\<forall>i<length cs. \<forall>j<length cs.
         snd (round2_matrix (corr cs) ! i) ! j = NaN
         \<or> (\<exists>k::int. snd (round2_matrix (corr cs) ! i) ! j = Fin (real_of_int k / 100)))
   \<and> (\<forall>i<length cs. \<forall>xs. snd (cs ! i) = map Fin xs \<longrightarrow>
         snd (round2_matrix (corr cs) ! i) ! i
           = (if \<exists>a\<in>set xs. \<exists>b\<in>set xs. a \<noteq> b then Fin 1 else NaN))
   \<and> (\<forall>d v. show_risk_dashboard fetch z df = Inr d \<and> view d = Some v \<longrightarrow>
         (\<exists>sel. select_columns
                   (frame_columns (dropna_rows (pct_change
                      (fst (get_price_history fetch (map fst df) (LOOKBACK_DAYS @ ''d''))))))
                   (map fst (portfolio_weights (valid_rows df (dropna_rows (pct_change
                      (fst (get_price_history fetch (map fst df) (LOOKBACK_DAYS @ ''d'')))))))) = Inr sel
               \<and> corr_matrix v = round2_matrix (corr sel)))"
proof (intro conjI allI impI)
  show "map fst (round2_matrix (corr cs)) = map fst cs" by (rule corr_matrix_labels)
next
  fix i assume "i < length cs"
  then show "length (snd (round2_matrix (corr cs) ! i)) = length cs"
    by (rule corr_matrix_row_length)
next
  fix i j assume "i < length cs" "j < length cs"
  then show "snd (round2_matrix (corr cs) ! i) ! j = snd (round2_matrix (corr cs) ! j) ! i"
    by (simp add: corr_matrix_entry max.commute min.commute)
next
  fix i j assume "i < length cs" "j < length cs"
  then show "snd (round2_matrix (corr cs) ! i) ! j = NaN
         \<or> (\<exists>k::int. snd (round2_matrix (corr cs) ! i) ! j = Fin (real_of_int k / 100))"
    by (simp only: corr_matrix_entry round2_corr_pair_form)
next
  fix i xs assume i: "i < length cs" and xs: "snd (cs ! i) = map Fin xs"
  have "snd (round2_matrix (corr cs) ! i) ! i = round2 (corr_pair (map Fin xs) (map Fin xs))"
    using corr_matrix_entry [OF i i] by (simp add: xs)
  then show "snd (round2_matrix (corr cs) ! i) ! i
           = (if \<exists>a\<in>set xs. \<exists>b\<in>set xs. a \<noteq> b then Fin 1 else NaN)"
    by (simp add: corr_pair_self rint_def Let_def)
next
  fix d v
  assume a: "show_risk_dashboard fetch z df = Inr d \<and> view d = Some v"
  obtain price_df missing out
    where g: "get_price_history fetch (map fst df) (LOOKBACK_DAYS @ ''d'') = (price_df, missing, out)"
    by (cases "get_price_history fetch (map fst df) (LOOKBACK_DAYS @ ''d'')")
  from a dashboard_view [OF _ _ g, of z d v]
  show "\<exists>sel. select_columns
                   (frame_columns (dropna_rows (pct_change
                      (fst (get_price_history fetch (map fst df) (LOOKBACK_DAYS @ ''d''))))))
                   (map fst (portfolio_weights (valid_rows df (dropna_rows (pct_change
                      (fst (get_price_history fetch (map fst df) (LOOKBACK_DAYS @ ''d'')))))))) = Inr sel
               \<and> corr_matrix v = round2_matrix (corr sel)"
    unfolding g fst_conv by blast
qed

text \<open>
  The claim as stated fails: a return series that is constant (a flat price history gives
  returns that are all 0) has NaN, not 1.0, on the diagonal.
\<close>

theorem correlation_diagonal_nan:
  "round2_matrix (corr [(''A'', [Fin 0, Fin 0])]) = [(''A'', [NaN])]"
  by (simp add: round2_matrix_def corr_def corr_pair_def)

theorem correlation_matrix_witness:
  "(0::nat) < length [(''A'', [Fin (1 / 100), Fin (3 / 100)]), (''B'', [Fin (2 / 100), Fin (2 / 100)])]
   \<and> (1::nat) < length [(''A'', [Fin (1 / 100), Fin (3 / 100)]), (''B'', [Fin (2 / 100), Fin (2 / 100)])]
   \<and> snd ([(''A'', [Fin (1 / 100), Fin (3 / 100)]), (''B'', [Fin (2 / 100), Fin (2 / 100)])] ! 0)
        = map Fin [1 / 100, 3 / 100]
   \<and> snd ([(''A'', [Fin (1 / 100), Fin (3 / 100)]), (''B'', [Fin (2 / 100), Fin (2 / 100)])] ! 1)
        = map Fin [2 / 100, 2 / 100]
   \<and> snd (round2_matrix (corr [(''A'', [Fin (1 / 100), Fin (3 / 100)]), (''B'', [Fin (2 / 100), Fin (2 / 100)])]) ! 0) ! 1
        = snd (round2_matrix (corr [(''A'', [Fin (1 / 100), Fin (3 / 100)]), (''B'', [Fin (2 / 100), Fin (2 / 100)])]) ! 1) ! 0
   \<and> snd (round2_matrix (corr [(''A'', [Fin (1 / 100), Fin (3 / 100)]), (''B'', [Fin (2 / 100), Fin (2 / 100)])]) ! 0) ! 0
        = Fin 1
   \<and> snd (round2_matrix (corr [(''A'', [Fin (1 / 100), Fin (3 / 100)]), (''B'', [Fin (2 / 100), Fin (2 / 100)])]) ! 1) ! 1
        = NaN
   \<and> (\<exists>d v. show_risk_dashboard
               (\<lambda>k t p. if t = ''A'' then Returns [(0, Fin 100), (1, Fin 110), (2, Fin 99)]
                         else Returns [(0, Fin 50), (1, Fin 45), (2, Fin 54)])
               (\<lambda>k. 0) [(''A'', Fin 600), (''B'', Fin 400)] = Inr d
           \<and> view d = Some v
           \<and> corr_matrix v
               = round2_matrix (corr [(''A'', [Fin (1 / 10), Fin (- 1 / 10)]),
                                      (''B'', [Fin (- 1 / 10), Fin (1 / 5)])]))"
proof -
  let ?cs = "[(''A'', [Fin (1 / 100), Fin (3 / 100)]), (''B'', [Fin (2 / 100), Fin (2 / 100)])]"
  note T = correlation_matrix [of ?cs "\<lambda>k t p. Returns []" "\<lambda>k. 0" "[]"]
  have l0: "(0::nat) < length ?cs" and l1: "(1::nat) < length ?cs" by simp_all
  have c0: "snd (?cs ! 0) = map Fin [1 / 100, 3 / 100]" by simp
  have c1: "snd (?cs ! 1) = map Fin [2 / 100, 2 / 100]" by simp
  from T have sym: "\<forall>i<length ?cs. \<forall>j<length ?cs.
         snd (round2_matrix (corr ?cs) ! i) ! j = snd (round2_matrix (corr ?cs) ! j) ! i"
    by (elim conjE)
  from T have diag: "\<forall>i<length ?cs. \<forall>xs. snd (?cs ! i) = map Fin xs \<longrightarrow>
         snd (round2_matrix (corr ?cs) ! i) ! i
           = (if \<exists>a\<in>set xs. \<exists>b\<in>set xs. a \<noteq> b then Fin 1 else NaN)"
    by (elim conjE)
  have s: "snd (round2_matrix (corr ?cs) ! 0) ! 1 = snd (round2_matrix (corr ?cs) ! 1) ! 0"
    using sym [rule_format, OF l0 l1] .
  have ex: "\<exists>a\<in>set [1 / 100, 3 / 100 :: real]. \<exists>b\<in>set [1 / 100, 3 / 100]. a \<noteq> b"
    by (rule bexI [of _ "1 / 100"], rule bexI [of _ "3 / 100"]) simp_all
  have d0: "snd (round2_matrix (corr ?cs) ! 0) ! 0 = Fin 1"
    using diag [rule_format, OF l0 c0] ex by (simp only: if_True)
  have d1: "snd (round2_matrix (corr ?cs) ! 1) ! 1 = NaN"
    using diag [rule_format, OF l1 c1] by simp
  let ?F = "\<lambda>(k::nat) (t::ticker) (p::string).
              if t = ''A'' then Returns [(0, Fin 100), (1, Fin 110), (2, Fin 99)]
              else Returns [(0, Fin 50), (1, Fin 45), (2, Fin 54)]"
  let ?df = "[(''A'', Fin 600), (''B'', Fin 400)]"
  let ?P = "\<lparr>frame_index = [0, 1, 2],
             frame_columns = [(''A'', [Fin 100, Fin 110, Fin 99]), (''B'', [Fin 50, Fin 45, Fin 54])]\<rparr>"
  let ?R = "\<lparr>frame_index = [1, 2],
             frame_columns = [(''A'', [Fin (1 / 10), Fin (- 1 / 10)]), (''B'', [Fin (- 1 / 10), Fin (1 / 5)])]\<rparr>"
  have g: "get_price_history ?F (map fst ?df) (LOOKBACK_DAYS @ ''d'') = (?P, [], [])"
    by (simp add: get_price_history_def DataFrame_def dropna_columns_all_def)
  have ne: "\<not> frame_empty ?P" by (simp add: frame_empty_def)
  have r: "dropna_rows (pct_change ?P) = ?R"
    by (simp add: dropna_rows_def pct_change_def pct_change_column_def shift1_def f_sub_def
        row_valid_def keep_rows_def Let_def upt_rec)
  have rows: "frame_index (dropna_rows (pct_change ?P)) \<noteq> []" unfolding r by simp
  have vr: "valid_rows ?df ?R = ?df" by (simp add: valid_rows_def)
  have sc: "select_columns (frame_columns ?R) (map fst (portfolio_weights (valid_rows ?df ?R)))
              = Inr [(''A'', [Fin (1 / 10), Fin (- 1 / 10)]), (''B'', [Fin (- 1 / 10), Fin (1 / 5)])]"
    unfolding vr by (simp add: portfolio_weights_def Let_def)
  from dashboard_reaches_projection [OF g ne rows, of "\<lambda>k. 0"] obtain d v
    where dv: "show_risk_dashboard ?F (\<lambda>k. 0) ?df = Inr d" "view d = Some v"
    unfolding r vr by auto
  from correlation_matrix [of "[]" ?F "\<lambda>k. 0" ?df] dv
  obtain sel where "select_columns (frame_columns ?R)
        (map fst (portfolio_weights (valid_rows ?df ?R))) = Inr sel"
      and "corr_matrix v = round2_matrix (corr sel)"
    unfolding g fst_conv r by blast
  with sc have cm: "corr_matrix v
      = round2_matrix (corr [(''A'', [Fin (1 / 10), Fin (- 1 / 10)]), (''B'', [Fin (- 1 / 10), Fin (1 / 5)])])"
    by simp
  from dv cm have ex: "\<exists>d v. show_risk_dashboard ?F (\<lambda>k. 0) ?df = Inr d \<and> view d = Some v
           \<and> corr_matrix v
               = round2_matrix (corr [(''A'', [Fin (1 / 10), Fin (- 1 / 10)]),
                                      (''B'', [Fin (- 1 / 10), Fin (1 / 5)])])"
    by blast
  from l0 l1 c0 c1 s d0 d1 ex show ?thesis by (intro conjI)
qed

end
